theory Spec2Isabelle
  imports Main "HOL-Library.Multiset" "HOL-Library.List_Lexorder" "HOL-Library.Product_Lexorder"
begin

section \<open>Python values\<close>

subsection \<open>Strings\<close>

text \<open>
  A Python \<open>str\<close> is a sequence of code points, and \<open>str\<close> comparison is the
  lexicographic order of the code points (a proper prefix is smaller). Code points are
  natural numbers here, so that the order of \<open>pystr\<close> is the one of
  \<open>HOL-Library.List_Lexorder\<close>, and a tuple of strings is ordered as Python orders
  tuples, by \<open>HOL-Library.Product_Lexorder\<close>. \<open>str ''abc''\<close> is the literal \<open>"abc"\<close>.
\<close>

type_synonym pystr = "nat list"

definition str :: "string \<Rightarrow> pystr" where
  "str s = map of_char s"

text \<open>
  \<open>str.isspace\<close> for one code point: the characters of general category Zs or of
  bidirectional class WS, B or S.
\<close>

definition isspace :: "nat \<Rightarrow> bool" where
  "isspace c \<longleftrightarrow>
     (9 \<le> c \<and> c \<le> 13) \<or> (28 \<le> c \<and> c \<le> 32) \<or> c = 133 \<or> c = 160 \<or> c = 5760 \<or>
     (8192 \<le> c \<and> c \<le> 8202) \<or> c = 8232 \<or> c = 8233 \<or> c = 8239 \<or> c = 8287 \<or>
     c = 12288"

text \<open>
  \<open>s.split()\<close> with no argument: the maximal runs of characters that are not
  whitespace, in order; leading, trailing and repeated whitespace give no empty token.
  \<open>split_from tok cs\<close> scans \<open>cs\<close> with the token read so far in \<open>tok\<close>.
\<close>

fun split_from :: "pystr \<Rightarrow> pystr \<Rightarrow> pystr list" where
  "split_from tok [] = (if tok = [] then [] else [tok])"
| "split_from tok (c # cs) =
     (if isspace c then (if tok = [] then split_from [] cs else tok # split_from [] cs)
      else split_from (tok @ [c]) cs)"

definition split :: "pystr \<Rightarrow> pystr list" where
  "split s = split_from [] s"

text \<open>Decimal digits of a number, and \<open>str(i)\<close> for an integer.\<close>

fun digits :: "nat \<Rightarrow> pystr" where
  "digits n = (if n < 10 then [48 + n] else digits (n div 10) @ [48 + n mod 10])"

declare digits.simps [simp del]

definition str_int :: "int \<Rightarrow> pystr" where
  "str_int i = (if i < 0 then 45 # digits (nat (- i)) else digits (nat i))"

text \<open>\<open>sep.join(xs)\<close>.\<close>

fun join :: "pystr \<Rightarrow> pystr list \<Rightarrow> pystr" where
  "join sep [] = []"
| "join sep [x] = x"
| "join sep (x # y # ys) = x @ sep @ join sep (y # ys)"

subsection \<open>Exceptions\<close>

text \<open>
  The exceptions that the program can raise and does not catch. A function that can
  raise returns \<open>py_error + 'a\<close>, with \<open>Inl\<close> for the exception; \<open>and_then\<close>
  sequences two steps and stops at the first exception.
\<close>

datatype py_error =
    FileNotFoundError | IsADirectoryError | NotADirectoryError | UnicodeDecodeError
  | JSONDecodeError | TypeError | KeyError | IndexError | AttributeError | ValueError

definition and_then :: "'e + 'a \<Rightarrow> ('a \<Rightarrow> 'e + 'b) \<Rightarrow> 'e + 'b" where
  "and_then m f = (case m of Inl e \<Rightarrow> Inl e | Inr x \<Rightarrow> f x)"

fun map_err :: "('a \<Rightarrow> 'e + 'b) \<Rightarrow> 'a list \<Rightarrow> 'e + 'b list" where
  "map_err f [] = Inr []"
| "map_err f (x # xs) =
     and_then (f x) (\<lambda>y. and_then (map_err f xs) (\<lambda>ys. Inr (y # ys)))"

subsection \<open>Decoded JSON\<close>

text \<open>
  What \<open>json.load\<close> returns: \<open>None\<close>, a \<open>bool\<close>, an \<open>int\<close> (unbounded), a
  \<open>float\<close>, a \<open>str\<close>, a \<open>list\<close> or a \<open>dict\<close> with \<open>str\<close> keys. A \<open>dict\<close> is the list of
  its items in insertion order (its keys are distinct). The program does no arithmetic
  on a \<open>float\<close>, it only passes it on; a \<open>float\<close> is carried as
  the text that \<open>json.dump\<close> prints for it.
\<close>

datatype json =
    JNull | JBool bool | JInt int | JFloat pystr | JStr pystr
  | JArr "json list" | JObj "(pystr \<times> json) list"

text \<open>\<open>obj[key]\<close> for a \<open>str\<close> key: only a \<open>dict\<close> can be subscripted with one.\<close>

fun getitem :: "json \<Rightarrow> pystr \<Rightarrow> py_error + json" where
  "getitem (JObj items) key = (case map_of items key of None \<Rightarrow> Inl KeyError | Some v \<Rightarrow> Inr v)"
| "getitem _ key = Inl TypeError"

text \<open>\<open>obj.split()\<close>: only a \<open>str\<close> has the method.\<close>

fun split_method :: "json \<Rightarrow> py_error + pystr list" where
  "split_method (JStr s) = Inr (split s)"
| "split_method _ = Inl AttributeError"

text \<open>\<open>xs[0]\<close> and \<open>xs[-1]\<close> of a list.\<close>

definition first_item :: "'a list \<Rightarrow> py_error + 'a" where
  "first_item xs = (case xs of [] \<Rightarrow> Inl IndexError | x # _ \<Rightarrow> Inr x)"

definition last_item :: "'a list \<Rightarrow> py_error + 'a" where
  "last_item xs = (if xs = [] then Inl IndexError else Inr (last xs))"

text \<open>
  Iterating over a value, as \<open>sorted\<close> does over its argument: a \<open>list\<close> gives its
  elements, a \<open>dict\<close> its keys, a \<open>str\<close> its characters; nothing else is iterable.
\<close>

fun iterate :: "json \<Rightarrow> py_error + json list" where
  "iterate (JArr xs) = Inr xs"
| "iterate (JObj items) = Inr (map (\<lambda>item. JStr (fst item)) items)"
| "iterate (JStr s) = Inr (map (\<lambda>c. JStr [c]) s)"
| "iterate _ = Inl TypeError"

text \<open>
  \<open>sorted(xs, key=key)\<close>: the key of every element is computed first, in order (the
  first exception ends the call); the elements are then sorted by their keys, and the
  sort is stable.
\<close>

definition py_sorted :: "('a \<Rightarrow> py_error + 'k::linorder) \<Rightarrow> 'a list \<Rightarrow> py_error + 'a list" where
  "py_sorted key xs =
     and_then (map_err key xs) (\<lambda>ks. Inr (map snd (sort_key fst (zip ks xs))))"

subsection \<open>\<open>json.dump\<close>\<close>

text \<open>
  \<open>json.dump\<close> with its default arguments: items separated by \<open>", "\<close>, key and
  value by \<open>": "\<close>, and strings in ASCII (\<open>ensure_ascii\<close>): the quote, the backslash and
  every character outside \<open>' '..'~'\<close> are escaped, a character beyond the basic plane as
  a surrogate pair.
\<close>

definition hex_digit :: "nat \<Rightarrow> nat" where
  "hex_digit d = (if d < 10 then 48 + d else 87 + d)"

definition hex4 :: "nat \<Rightarrow> pystr" where
  "hex4 n = [hex_digit (n div 4096 mod 16), hex_digit (n div 256 mod 16),
             hex_digit (n div 16 mod 16), hex_digit (n mod 16)]"

definition escape_char :: "nat \<Rightarrow> pystr" where
  "escape_char c =
     (if c = 34 then [92, 34]
      else if c = 92 then [92, 92]
      else if 32 \<le> c \<and> c \<le> 126 then [c]
      else if c = 8 then [92, 98]
      else if c = 12 then [92, 102]
      else if c = 10 then [92, 110]
      else if c = 13 then [92, 114]
      else if c = 9 then [92, 116]
      else if c < 65536 then [92, 117] @ hex4 c
      else [92, 117] @ hex4 (55296 + (c - 65536) div 1024 mod 1024) @
           [92, 117] @ hex4 (56320 + (c - 65536) mod 1024))"

definition encode_str :: "pystr \<Rightarrow> pystr" where
  "encode_str s = [34] @ concat (map escape_char s) @ [34]"

fun json_dumps :: "json \<Rightarrow> pystr" where
  "json_dumps JNull = str ''null''"
| "json_dumps (JBool b) = (if b then str ''true'' else str ''false'')"
| "json_dumps (JInt i) = str_int i"
| "json_dumps (JFloat r) = r"
| "json_dumps (JStr s) = encode_str s"
| "json_dumps (JArr xs) = [91] @ join (str '', '') (map json_dumps xs) @ [93]"
| "json_dumps (JObj items) =
     [123] @ join (str '', '')
       (map (\<lambda>item. encode_str (fst item) @ str '': '' @ json_dumps (snd item)) items) @ [125]"

section \<open>The environment\<close>

subsection \<open>Files\<close>

text \<open>
  A path is the list of its components; the empty path is the directory the program runs
  in, which is also the directory of \<open>main.py\<close>. The file system maps a path to what
  is there: a directory, a text file, or a workbook that \<open>openpyxl\<close> has saved. It is a
  tree of names only: access rights and input/output faults are not part of it.
\<close>

type_synonym path = "pystr list"

type_synonym sheet = "json list list"

datatype content = Text pystr | Xlsx sheet

datatype node = Dir | File content

type_synonym filesystem = "path \<Rightarrow> node option"

definition path_exists :: "filesystem \<Rightarrow> path \<Rightarrow> bool" where
  "path_exists files p \<longleftrightarrow> p = [] \<or> files p \<noteq> None"

definition is_dir :: "filesystem \<Rightarrow> path \<Rightarrow> bool" where
  "is_dir files p \<longleftrightarrow> p = [] \<or> files p = Some Dir"

text \<open>
  Opening a file for writing (\<open>open(p, "w")\<close>, and the \<open>ZipFile\<close> that \<open>wb.save\<close>
  opens) creates it or empties it; the directory it is in must exist.
\<close>

definition create_file :: "filesystem \<Rightarrow> path \<Rightarrow> content \<Rightarrow> py_error + filesystem" where
  "create_file files p c =
     (if p = [] \<or> files p = Some Dir then Inl IsADirectoryError
      else if is_dir files (butlast p) then Inr (files(p \<mapsto> File c))
      else if files (butlast p) = None then Inl FileNotFoundError
      else Inl NotADirectoryError)"

text \<open>
  The exception of \<open>open\<close> for a path at which nothing is: \<open>NotADirectoryError\<close>
  when what should be its directory is a regular file, \<open>FileNotFoundError\<close> otherwise.
\<close>

definition missing_error :: "filesystem \<Rightarrow> path \<Rightarrow> py_error" where
  "missing_error files p =
     (case files (butlast p) of Some (File _) \<Rightarrow> NotADirectoryError | _ \<Rightarrow> FileNotFoundError)"

text \<open>
  Reading a whole text file (\<open>open(p, "r", encoding="utf-8")\<close> and the \<open>f.read()\<close>
  inside \<open>json.load\<close>). A saved workbook is a zip archive, not UTF-8 text.
\<close>

definition read_text :: "filesystem \<Rightarrow> path \<Rightarrow> py_error + pystr" where
  "read_text files p =
     (if p = [] then Inl IsADirectoryError
      else case files p of
        None \<Rightarrow> Inl (missing_error files p)
      | Some Dir \<Rightarrow> Inl IsADirectoryError
      | Some (File (Text s)) \<Rightarrow> Inr s
      | Some (File (Xlsx _)) \<Rightarrow> Inl UnicodeDecodeError)"

subsection \<open>Libraries\<close>

text \<open>
  Two library functions are parameters of the model: \<open>json_loads\<close>, the decoder behind
  \<open>json.load\<close> and \<open>response.json()\<close>, from a text to a value or an exception; and
  \<open>cell_error\<close>, the exception that \<open>openpyxl\<close> raises when it cannot store a value in
  a cell, if it raises one.
\<close>

record pylib =
  json_loads :: "pystr \<Rightarrow> py_error + json"
  cell_error :: "json \<Rightarrow> py_error option"

subsection \<open>The network\<close>

text \<open>
  \<open>requests.get\<close> either raises a \<open>RequestException\<close> (a connection failure, the
  timeout after 60 seconds, ...; carried as its message) or returns a response, with its
  status code and its body. \<open>raise_for_status\<close> raises an \<open>HTTPError\<close> for a status
  from 400 to 599, and for no other status: \<open>http_error\<close> is that exception, if there
  is one. The network is a function from the number of requests made so far to the
  outcome of the next one.
\<close>

datatype request_exception = TransportFailure pystr | HTTPError nat

record response =
  status_code :: nat
  body :: pystr

definition http_error :: "response \<Rightarrow> request_exception option" where
  "http_error r =
     (if 400 \<le> status_code r \<and> status_code r < 600 then Some (HTTPError (status_code r))
      else None)"

datatype http_outcome = Raises request_exception | Returns response

type_synonym network = "nat \<Rightarrow> http_outcome"

definition raise_for_status :: "response \<Rightarrow> request_exception + response" where
  "raise_for_status r = (case http_error r of Some e \<Rightarrow> Inl e | None \<Rightarrow> Inr r)"

definition requests_get :: "http_outcome \<Rightarrow> request_exception + response" where
  "requests_get outcome = (case outcome of Raises e \<Rightarrow> Inl e | Returns r \<Rightarrow> Inr r)"

subsection \<open>The state\<close>

text \<open>
  What a call can change: the file system, the lines passed to \<open>logging.log\<close> (level and
  message), and the number of network requests made.
\<close>

datatype log_msg =
    SkippingApiCall | FailedToFetch request_exception | JsonCreated path | ExcelSaved path

record world =
  fs :: filesystem
  logged :: "(nat \<times> log_msg) list"
  sent :: nat

definition log :: "nat \<Rightarrow> log_msg \<Rightarrow> world \<Rightarrow> world" where
  "log level msg w = w\<lparr>logged := logged w @ [(level, msg)]\<rparr>"

section \<open>The program\<close>

definition DATA_FOLDER :: path where
  "DATA_FOLDER = [str ''data'']"

definition USERS_JSON_FILE :: path where
  "USERS_JSON_FILE = DATA_FOLDER @ [str ''users.json'']"

subsection \<open>\<open>fetch_user_data_to_json\<close>\<close>

text \<open>
  The function returns \<open>None\<close> on each of its three paths; only an exception that it
  does not catch is an error of the call. The file is opened, and so created, before
  \<open>response.json()\<close> decodes the body.
\<close>

definition fetch_user_data_to_json :: "pylib \<Rightarrow> network \<Rightarrow> world \<Rightarrow> (py_error + unit) \<times> world" where
  "fetch_user_data_to_json lib net w =
     (if path_exists (fs w) USERS_JSON_FILE then (Inr (), log 1 SkippingApiCall w)
      else
        let w1 = w\<lparr>sent := sent w + 1\<rparr> in
        case and_then (requests_get (net (sent w))) raise_for_status of
          Inl e \<Rightarrow> (Inr (), log 2 (FailedToFetch e) w1)
        | Inr response \<Rightarrow>
            (case create_file (fs w1) USERS_JSON_FILE (Text []) of
               Inl err \<Rightarrow> (Inl err, w1)
             | Inr opened \<Rightarrow>
                 (case json_loads lib (body response) of
                    Inl err \<Rightarrow> (Inl err, w1\<lparr>fs := opened\<rparr>)
                  | Inr v \<Rightarrow>
                      (Inr (),
                       log 1 (JsonCreated USERS_JSON_FILE)
                         (w1\<lparr>fs := opened(USERS_JSON_FILE \<mapsto> File (Text (json_dumps v)))\<rparr>)))))"

subsection \<open>The clock\<close>

text \<open>
  \<open>datetime.now()\<close> returns the local date and time, without a time zone. A
  \<open>datetime\<close> holds a year from 1 to 9999, a day that its month has, and a time of
  day. Subtracting two of them counts the microseconds between them, through the
  day number of the proleptic Gregorian calendar.
\<close>

record datetime =
  year :: nat
  month :: nat
  day :: nat
  hour :: nat
  minute :: nat
  second :: nat
  microsecond :: nat

definition is_leap :: "nat \<Rightarrow> bool" where
  "is_leap y \<longleftrightarrow> y mod 4 = 0 \<and> (y mod 100 \<noteq> 0 \<or> y mod 400 = 0)"

definition days_in_month :: "nat \<Rightarrow> nat \<Rightarrow> nat" where
  "days_in_month y m =
     (if m = 2 then (if is_leap y then 29 else 28)
      else if m = 4 \<or> m = 6 \<or> m = 9 \<or> m = 11 then 30 else 31)"

definition days_before_year :: "nat \<Rightarrow> nat" where
  "days_before_year y = (y - 1) * 365 + (y - 1) div 4 - (y - 1) div 100 + (y - 1) div 400"

definition days_before_month :: "nat \<Rightarrow> nat \<Rightarrow> nat" where
  "days_before_month y m = (\<Sum>k \<leftarrow> [1..<m]. days_in_month y k)"

definition valid_datetime :: "datetime \<Rightarrow> bool" where
  "valid_datetime t \<longleftrightarrow>
     1 \<le> year t \<and> year t \<le> 9999 \<and> 1 \<le> month t \<and> month t \<le> 12 \<and>
     1 \<le> day t \<and> day t \<le> days_in_month (year t) (month t) \<and>
     hour t < 24 \<and> minute t < 60 \<and> second t < 60 \<and> microsecond t < 1000000"

definition toordinal :: "datetime \<Rightarrow> nat" where
  "toordinal t = days_before_year (year t) + days_before_month (year t) (month t) + day t"

definition to_microseconds :: "datetime \<Rightarrow> int" where
  "to_microseconds t =
     int ((((toordinal t * 24 + hour t) * 60 + minute t) * 60 + second t) * 1000000
          + microsecond t)"

text \<open>\<open>t2 - t1 > timedelta(seconds=1)\<close>: \<open>t1\<close> is more than one second before \<open>t2\<close>.\<close>

definition more_than_a_second_before :: "datetime \<Rightarrow> datetime \<Rightarrow> bool" where
  "more_than_a_second_before t1 t2 \<longleftrightarrow> to_microseconds t2 - to_microseconds t1 > 1000000"

text \<open>
  A moment at which the program runs: the date and time in UTC, the offset of the local
  time zone from UTC at that moment, in seconds, and the local date and time, which is
  what \<open>datetime.now()\<close> returns. The local time is the UTC time plus the offset. One
  moment is more than a second before another when their UTC times are.
\<close>

record moment =
  utc :: datetime
  utcoffset :: int
  wall_clock :: datetime

definition moment_ok :: "moment \<Rightarrow> bool" where
  "moment_ok m \<longleftrightarrow>
     valid_datetime (utc m) \<and> valid_datetime (wall_clock m) \<and>
     to_microseconds (wall_clock m) = to_microseconds (utc m) + 1000000 * utcoffset m"

definition datetime_now :: "moment \<Rightarrow> datetime" where
  "datetime_now m = wall_clock m"

definition more_than_a_second_earlier :: "moment \<Rightarrow> moment \<Rightarrow> bool" where
  "more_than_a_second_earlier m1 m2 \<longleftrightarrow> more_than_a_second_before (utc m1) (utc m2)"

text \<open>
  \<open>now.strftime("%Y%m%d%H%M%S")\<close>: the year in decimal, then the other five fields
  padded with zeros to two digits. The C library formats \<open>%Y\<close>, and glibc does not
  pad it: a year below 1000 has fewer than four digits.
\<close>

definition zero_pad :: "nat \<Rightarrow> nat \<Rightarrow> pystr" where
  "zero_pad width n = replicate (width - length (digits n)) 48 @ digits n"

definition strftime :: "datetime \<Rightarrow> pystr" where
  "strftime t =
     digits (year t) @ zero_pad 2 (month t) @ zero_pad 2 (day t) @
     zero_pad 2 (hour t) @ zero_pad 2 (minute t) @ zero_pad 2 (second t)"

subsection \<open>\<open>write_user_data_to_excel\<close>\<close>

text \<open>
  The worksheet is the list of the rows passed to \<open>ws.append\<close>, in order; what
  \<open>openpyxl\<close> makes of a cell value afterwards is its own matter. The workbook is
  in memory until \<open>wb.save\<close>, the only step that writes.
\<close>

definition ws_append :: "pylib \<Rightarrow> sheet \<Rightarrow> json list \<Rightarrow> py_error + sheet" where
  "ws_append lib ws row =
     (case List.map_filter (cell_error lib) row of [] \<Rightarrow> Inr (ws @ [row]) | e # _ \<Rightarrow> Inl e)"

definition header :: "json list" where
  "header = [JStr (str ''last name''), JStr (str ''first name''), JStr (str ''email''),
             JStr (str ''street''), JStr (str ''city''), JStr (str ''zipcode''),
             JStr (str ''phone''), JStr (str ''website'')]"

text \<open>\<open>user["name"].split()[-1]\<close> and \<open>user["name"].split()[0]\<close>.\<close>

definition last_name :: "json \<Rightarrow> py_error + pystr" where
  "last_name user = and_then (and_then (getitem user (str ''name'')) split_method) last_item"

definition first_name :: "json \<Rightarrow> py_error + pystr" where
  "first_name user = and_then (and_then (getitem user (str ''name'')) split_method) first_item"

text \<open>The \<open>key\<close> of the call of \<open>sorted\<close>: the pair of the two.\<close>

definition name_key :: "json \<Rightarrow> py_error + pystr \<times> pystr" where
  "name_key user =
     and_then (last_name user) (\<lambda>l. and_then (first_name user) (\<lambda>f. Inr (l, f)))"

text \<open>The list passed to \<open>ws.append\<close> for one user; its items are evaluated in order.\<close>

definition address_item :: "json \<Rightarrow> string \<Rightarrow> py_error + json" where
  "address_item user k = and_then (getitem user (str ''address'')) (\<lambda>a. getitem a (str k))"

definition user_row :: "json \<Rightarrow> py_error + json list" where
  "user_row user =
     and_then (last_name user) (\<lambda>l.
     and_then (first_name user) (\<lambda>f.
     and_then (getitem user (str ''email'')) (\<lambda>email.
     and_then (address_item user ''street'') (\<lambda>street.
     and_then (address_item user ''city'') (\<lambda>city.
     and_then (address_item user ''zipcode'') (\<lambda>zipcode.
     and_then (getitem user (str ''phone'')) (\<lambda>phone.
     and_then (getitem user (str ''website'')) (\<lambda>website.
     Inr [JStr l, JStr f, email, street, city, zipcode, phone, website]))))))))"

text \<open>The loop over \<open>sorted_users\<close>.\<close>

fun append_users :: "pylib \<Rightarrow> sheet \<Rightarrow> json list \<Rightarrow> py_error + sheet" where
  "append_users lib ws [] = Inr ws"
| "append_users lib ws (user # users) =
     and_then (and_then (user_row user) (ws_append lib ws)) (\<lambda>ws'. append_users lib ws' users)"

definition export_name :: "datetime \<Rightarrow> pystr" where
  "export_name now = str ''employees_'' @ strftime now @ str ''.xlsx''"

text \<open>
  \<open>build_sheet\<close> is the function up to \<open>wb.save\<close>: reading and decoding the snapshot,
  the header, the sort, the rows.
\<close>

definition build_sheet :: "pylib \<Rightarrow> filesystem \<Rightarrow> py_error + sheet" where
  "build_sheet lib files =
     and_then (and_then (read_text files USERS_JSON_FILE) (json_loads lib)) (\<lambda>users.
     and_then (ws_append lib [] header) (\<lambda>ws.
     and_then (and_then (iterate users) (py_sorted name_key)) (\<lambda>sorted_users.
     append_users lib ws sorted_users)))"

definition write_user_data_to_excel ::
    "pylib \<Rightarrow> datetime \<Rightarrow> path \<Rightarrow> world \<Rightarrow> (py_error + unit) \<times> world" where
  "write_user_data_to_excel lib now save_folder w =
     (case build_sheet lib (fs w) of
        Inl err \<Rightarrow> (Inl err, w)
      | Inr ws \<Rightarrow>
          let save_path = save_folder @ [export_name now] in
          (case create_file (fs w) save_path (Xlsx ws) of
             Inl err \<Rightarrow> (Inl err, w)
           | Inr saved \<Rightarrow> (Inr (), log 1 (ExcelSaved save_path) (w\<lparr>fs := saved\<rparr>))))"

subsection \<open>The script\<close>


section \<open>Notions used in the statements\<close>

text \<open>The sort key of a user whose key can be computed (the empty pair otherwise).\<close>

definition key_of :: "json \<Rightarrow> pystr \<times> pystr" where
  "key_of user = (case name_key user of Inl _ \<Rightarrow> ([], []) | Inr k \<Rightarrow> k)"

text \<open>
  A user lacks a required field: one of the five keys read from the record, or one of
  the three read from its address, is not there.
\<close>

definition lacks_field :: "json \<Rightarrow> bool" where
  "lacks_field user \<longleftrightarrow>
     (\<exists>k \<in> set [''name'', ''email'', ''address'', ''phone'', ''website''].
        getitem user (str k) = Inl KeyError) \<or>
     (\<exists>k \<in> set [''street'', ''city'', ''zipcode'']. address_item user k = Inl KeyError)"

text \<open>
  The fields of a moment that the file name shows, in their order, and the whole seconds
  of a moment (the count of \<open>to_microseconds\<close> without the microseconds).
\<close>

definition stamp :: "datetime \<Rightarrow> nat \<times> nat \<times> nat \<times> nat \<times> nat \<times> nat" where
  "stamp t = (year t, month t, day t, hour t, minute t, second t)"

definition seconds :: "datetime \<Rightarrow> nat" where
  "seconds t = ((toordinal t * 24 + hour t) * 60 + minute t) * 60 + second t"

section \<open>Example inputs\<close>

text \<open>
  A decoder that knows the listed documents and rejects every other text, and the rule
  of \<open>openpyxl\<close> that a cell holds a scalar.
\<close>

definition loads_table :: "(pystr \<times> json) list \<Rightarrow> pystr \<Rightarrow> py_error + json" where
  "loads_table docs s = (case map_of docs s of None \<Rightarrow> Inl JSONDecodeError | Some v \<Rightarrow> Inr v)"

fun scalar_cell :: "json \<Rightarrow> py_error option" where
  "scalar_cell (JArr _) = Some ValueError"
| "scalar_cell (JObj _) = Some ValueError"
| "scalar_cell _ = None"

definition lib_for :: "(pystr \<times> json) list \<Rightarrow> pylib" where
  "lib_for docs = \<lparr>json_loads = loads_table docs, cell_error = scalar_cell\<rparr>"

definition mk_user ::
    "string \<Rightarrow> string \<Rightarrow> string \<Rightarrow> string \<Rightarrow> string \<Rightarrow> string \<Rightarrow> string \<Rightarrow> json" where
  "mk_user n e p s c z w =
     JObj [(str ''name'', JStr (str n)), (str ''email'', JStr (str e)),
           (str ''address'',
            JObj [(str ''street'', JStr (str s)), (str ''city'', JStr (str c)),
                  (str ''zipcode'', JStr (str z))]),
           (str ''phone'', JStr (str p)), (str ''website'', JStr (str w))]"

text \<open>A first run: the two folders are there, the snapshot is not.\<close>

definition fresh :: world where
  "fresh = \<lparr>fs = [DATA_FOLDER \<mapsto> Dir, [str ''files''] \<mapsto> Dir], logged = [], sent = 0\<rparr>"

definition with_snapshot :: "pystr \<Rightarrow> world" where
  "with_snapshot s = fresh\<lparr>fs := (fs fresh)(USERS_JSON_FILE \<mapsto> File (Text s))\<rparr>"

definition offline :: network where
  "offline = (\<lambda>k. Raises (TransportFailure (str ''Connection refused'')))"

definition answering :: "pystr \<Rightarrow> network" where
  "answering b = (\<lambda>k. Returns \<lparr>status_code = 200, body = b\<rparr>)"



text \<open>A body as a server sends it, compact, and the value it decodes to.\<close>

definition one_two :: "(pystr \<times> json) list" where
  "one_two = [(str ''[1,2]'', JArr [JInt 1, JInt 2])]"

definition noon :: datetime where
  "noon = \<lparr>year = 2024, month = 2, day = 29, hour = 12, minute = 0, second = 0,
           microsecond = 0\<rparr>"

text \<open>Records, snapshots that hold them, and a decoder that knows a snapshot.\<close>

definition alice :: json where
  "alice = mk_user ''Alice Zephyr'' ''alice@x.com'' ''1'' ''1 Elm'' ''Ayr'' ''10001'' ''a.org''"

definition bob :: json where
  "bob = mk_user ''Bob Able'' ''bob@x.com'' ''2'' ''2 Oak'' ''Bath'' ''10002'' ''b.org''"

definition carl :: json where
  "carl = mk_user ''Carl Able'' ''carl@x.com'' ''3'' ''3 Ash'' ''Cork'' ''10003'' ''c.org''"

definition jane :: json where
  "jane = mk_user ''Jane Doe'' ''j@x.com'' ''555'' ''1 Main'' ''Springfield'' ''00001'' ''x.com''"

definition three_users :: json where
  "three_users = JArr [alice, bob, carl]"

definition snapshot_of :: "json \<Rightarrow> world" where
  "snapshot_of v = with_snapshot (json_dumps v)"

definition knowing :: "json \<Rightarrow> pylib" where
  "knowing v = lib_for [(json_dumps v, v)]"

definition nicholas :: json where
  "nicholas = mk_user ''Nicholas Runolfsdottir V'' ''n@x.com'' ''7'' ''7 Fir'' ''Hull'' ''10007'' ''n.org''"

definition only_jane :: json where
  "only_jane = JArr [jane]"

definition name_only :: json where
  "name_only = JObj [(str ''name'', JStr (str ''Jane Doe''))]"

definition incomplete :: json where
  "incomplete = JArr [name_only]"

text \<open>Two seconds after \<open>noon\<close>, and a snapshot that holds an empty object.\<close>

definition just_after_noon :: datetime where
  "just_after_noon = noon\<lparr>second := 2\<rparr>"





text \<open>
  The end of daylight saving time in Berlin, on 27 October 2024 at 01:00 UTC: a moment
  one second before it, when the local time is two hours ahead of UTC, and a moment one
  second after it, when the local time is one hour ahead.
\<close>

definition before_fall_back :: moment where
  "before_fall_back =
     \<lparr>utc = \<lparr>year = 2024, month = 10, day = 27, hour = 0, minute = 59, second = 59,
              microsecond = 0\<rparr>,
      utcoffset = 7200,
      wall_clock = \<lparr>year = 2024, month = 10, day = 27, hour = 2, minute = 59, second = 59,
                     microsecond = 0\<rparr>\<rparr>"

definition after_fall_back :: moment where
  "after_fall_back =
     \<lparr>utc = \<lparr>year = 2024, month = 10, day = 27, hour = 1, minute = 0, second = 1,
              microsecond = 0\<rparr>,
      utcoffset = 3600,
      wall_clock = \<lparr>year = 2024, month = 10, day = 27, hour = 2, minute = 0, second = 1,
                     microsecond = 0\<rparr>\<rparr>"

text \<open>An hour before the second of them: the wall clock reads the same.\<close>

definition an_hour_before :: moment where
  "an_hour_before =
     \<lparr>utc = \<lparr>year = 2024, month = 10, day = 27, hour = 0, minute = 0, second = 1,
              microsecond = 0\<rparr>,
      utcoffset = 7200,
      wall_clock = \<lparr>year = 2024, month = 10, day = 27, hour = 2, minute = 0, second = 1,
                     microsecond = 0\<rparr>\<rparr>"

definition at_noon :: moment where
  "at_noon = \<lparr>utc = noon, utcoffset = 0, wall_clock = noon\<rparr>"

definition at_just_after_noon :: moment where
  "at_just_after_noon = \<lparr>utc = just_after_noon, utcoffset = 0, wall_clock = just_after_noon\<rparr>"

section \<open>Properties\<close>

subsection \<open>Sequencing\<close>

lemma and_then_Inl [simp]: "and_then (Inl e) f = Inl e"
  by (simp add: and_then_def)

lemma and_then_Inr [simp]: "and_then (Inr x) f = f x"
  by (simp add: and_then_def)

lemma and_then_eq_Inr: "and_then m f = Inr y \<longleftrightarrow> (\<exists>x. m = Inr x \<and> f x = Inr y)"
  by (cases m) simp_all

lemma map_err_eq_Inr: "map_err f xs = Inr ys \<longleftrightarrow> list_all2 (\<lambda>x y. f x = Inr y) xs ys"
proof (induction xs arbitrary: ys)
  case Nil
  then show ?case by auto
next
  case (Cons x xs)
  show ?case
    by (cases ys) (auto simp: and_then_eq_Inr Cons.IH)
qed

subsection \<open>The example inputs\<close>

lemma fresh_no_snapshot: "\<not> path_exists (fs fresh) USERS_JSON_FILE"
  by (simp add: path_exists_def fresh_def USERS_JSON_FILE_def DATA_FOLDER_def str_def)

subsection \<open>A fetch that fails\<close>

lemma fetch_failed:
  assumes "\<not> path_exists (fs w) USERS_JSON_FILE"
    and "net (sent w) = Raises e \<or> (\<exists>r. net (sent w) = Returns r \<and> http_error r = Some e)"
  shows "fetch_user_data_to_json lib net w =
           (Inr (), w\<lparr>sent := sent w + 1, logged := logged w @ [(2, FailedToFetch e)]\<rparr>)"
  using assms
  by (auto simp: fetch_user_data_to_json_def requests_get_def raise_for_status_def log_def Let_def)



subsection \<open>A snapshot that is there\<close>

lemma fetch_cached:
  assumes "path_exists (fs w) USERS_JSON_FILE"
  shows "fetch_user_data_to_json lib net w =
           (Inr (), w\<lparr>logged := logged w @ [(1, SkippingApiCall)]\<rparr>)"
  using assms by (simp add: fetch_user_data_to_json_def log_def)

lemma with_snapshot_cached: "path_exists (fs (with_snapshot s)) USERS_JSON_FILE"
  by (simp add: path_exists_def with_snapshot_def)

lemma fresh_data_folder: "is_dir (fs fresh) DATA_FOLDER"
  by (simp add: is_dir_def fresh_def DATA_FOLDER_def str_def)

subsection \<open>A fetch that succeeds\<close>

lemma users_json_file_parent: "butlast USERS_JSON_FILE = DATA_FOLDER" "USERS_JSON_FILE \<noteq> []"
  by (simp_all add: USERS_JSON_FILE_def)

lemma fetch_succeeded:
  assumes "\<not> path_exists (fs w) USERS_JSON_FILE" and "is_dir (fs w) DATA_FOLDER"
    and "net (sent w) = Returns r" and "http_error r = None"
    and "json_loads lib (body r) = Inr v"
  shows "fetch_user_data_to_json lib net w =
           (Inr (), w\<lparr>sent := sent w + 1,
                      fs := (fs w)(USERS_JSON_FILE \<mapsto> File (Text (json_dumps v))),
                      logged := logged w @ [(1, JsonCreated USERS_JSON_FILE)]\<rparr>)"
  using assms
  by (auto simp: fetch_user_data_to_json_def requests_get_def raise_for_status_def log_def
      Let_def create_file_def path_exists_def users_json_file_parent)

lemma fetch_undecodable:
  assumes "\<not> path_exists (fs w) USERS_JSON_FILE" and "is_dir (fs w) DATA_FOLDER"
    and "net (sent w) = Returns r" and "http_error r = None"
    and "json_loads lib (body r) = Inl err"
  shows "fst (fetch_user_data_to_json lib net w) = Inl err"
  using assms
  by (auto simp: fetch_user_data_to_json_def requests_get_def raise_for_status_def log_def
      Let_def create_file_def path_exists_def users_json_file_parent)

text \<open>
  A body that does not decode leaves the file that was opened for it: an empty snapshot,
  which the next call takes for the cache.
\<close>

lemma fetch_undecodable_leaves_empty_snapshot:
  assumes "\<not> path_exists (fs w) USERS_JSON_FILE" and "is_dir (fs w) DATA_FOLDER"
    and "net (sent w) = Returns r" and "http_error r = None"
    and "json_loads lib (body r) = Inl err"
  shows "fs (snd (fetch_user_data_to_json lib net w)) =
           (fs w)(USERS_JSON_FILE \<mapsto> File (Text []))"
  using assms
  by (auto simp: fetch_user_data_to_json_def requests_get_def raise_for_status_def log_def
      Let_def create_file_def path_exists_def users_json_file_parent)

lemma loads_one_two: "json_loads (lib_for one_two) (str ''[1,2]'') = Inr (JArr [JInt 1, JInt 2])"
  by (simp add: lib_for_def loads_table_def one_two_def)

lemma dumps_one_two: "json_dumps (JArr [JInt 1, JInt 2]) = str ''[1, 2]''"
  by (simp add: str_def str_int_def digits.simps)

text \<open>
  C1, as the code has it. Whenever the snapshot path exists, the call returns at once
  without an exception, makes no network request and leaves the file system as it is
  (it logs the one line that it skips the request). When the snapshot is absent, its
  folder exists, and the request of the first call is answered without an error status
  by a body that decodes, then two calls in succession make exactly one request: the
  first writes the snapshot, and the second changes nothing in the file system. (Two
  calls make no request when the snapshot is there before the first, and two when the
  request fails.)
\<close>

theorem cache_by_presence:
  "(path_exists (fs w) USERS_JSON_FILE \<longrightarrow>
      fst (fetch_user_data_to_json lib net w) = Inr () \<and>
      sent (snd (fetch_user_data_to_json lib net w)) = sent w \<and>
      fs (snd (fetch_user_data_to_json lib net w)) = fs w \<and>
      logged (snd (fetch_user_data_to_json lib net w)) = logged w @ [(1, SkippingApiCall)]) \<and>
   (\<not> path_exists (fs w) USERS_JSON_FILE \<and> is_dir (fs w) DATA_FOLDER \<and>
    net (sent w) = Returns r \<and> http_error r = None \<and> json_loads lib (body r) = Inr v \<longrightarrow>
      (let first = fetch_user_data_to_json lib net w;
           second = fetch_user_data_to_json lib2 net2 (snd first)
       in fst first = Inr () \<and> fst second = Inr () \<and>
          sent (snd second) = sent w + 1 \<and>
          fs (snd first) USERS_JSON_FILE = Some (File (Text (json_dumps v))) \<and>
          fs (snd second) = fs (snd first) \<and>
          logged (snd second) = logged (snd first) @ [(1, SkippingApiCall)]))"
proof (intro conjI impI)
  assume "\<not> path_exists (fs w) USERS_JSON_FILE \<and> is_dir (fs w) DATA_FOLDER \<and>
    net (sent w) = Returns r \<and> http_error r = None \<and> json_loads lib (body r) = Inr v"
  then have first: "fetch_user_data_to_json lib net w =
      (Inr (), w\<lparr>sent := sent w + 1,
                 fs := (fs w)(USERS_JSON_FILE \<mapsto> File (Text (json_dumps v))),
                 logged := logged w @ [(1, JsonCreated USERS_JSON_FILE)]\<rparr>)"
    by (simp add: fetch_succeeded)
  show "let first = fetch_user_data_to_json lib net w;
           second = fetch_user_data_to_json lib2 net2 (snd first)
       in fst first = Inr () \<and> fst second = Inr () \<and>
          sent (snd second) = sent w + 1 \<and>
          fs (snd first) USERS_JSON_FILE = Some (File (Text (json_dumps v))) \<and>
          fs (snd second) = fs (snd first) \<and>
          logged (snd second) = logged (snd first) @ [(1, SkippingApiCall)]"
    by (simp add: first Let_def fetch_cached path_exists_def)
qed (simp_all add: fetch_cached)

theorem cache_by_presence_witness:
  "path_exists (fs (with_snapshot (str ''[]''))) USERS_JSON_FILE \<and>
   fst (fetch_user_data_to_json (lib_for []) offline (with_snapshot (str ''[]''))) = Inr () \<and>
   sent (snd (fetch_user_data_to_json (lib_for []) offline (with_snapshot (str ''[]'')))) = 0 \<and>
   fs (snd (fetch_user_data_to_json (lib_for []) offline (with_snapshot (str ''[]'')))) =
     fs (with_snapshot (str ''[]'')) \<and>
   \<not> path_exists (fs fresh) USERS_JSON_FILE \<and> is_dir (fs fresh) DATA_FOLDER \<and>
   (let first = fetch_user_data_to_json (lib_for one_two) (answering (str ''[1,2]'')) fresh;
        second = fetch_user_data_to_json (lib_for one_two) (answering (str ''[1,2]'')) (snd first)
    in fst first = Inr () \<and> fst second = Inr () \<and> sent (snd second) = 1 \<and>
       fs (snd first) USERS_JSON_FILE = Some (File (Text (str ''[1, 2]''))) \<and>
       fs (snd second) = fs (snd first))"
  using cache_by_presence [where w = "with_snapshot (str ''[]'')" and lib = "lib_for []"
      and net = offline]
    cache_by_presence [where w = fresh and lib = "lib_for one_two"
      and net = "answering (str ''[1,2]'')" and r = "\<lparr>status_code = 200, body = str ''[1,2]''\<rparr>"
      and v = "JArr [JInt 1, JInt 2]" and ?lib2.0 = "lib_for one_two"
      and ?net2.0 = "answering (str ''[1,2]'')"]
    with_snapshot_cached [of "str ''[]''"] fresh_no_snapshot fresh_data_folder loads_one_two
    dumps_one_two
  by (simp add: answering_def http_error_def Let_def) (simp add: with_snapshot_def fresh_def)

text \<open>
  Two calls in succession do not always make exactly one request. With the network
  down, each of the two calls makes a request, and the second is no idle call; with the
  snapshot there before the first call, neither makes one.
\<close>

theorem two_calls_one_request_counterexample:
  "sent fresh = 0 \<and>
   sent (snd (fetch_user_data_to_json (lib_for []) offline
           (snd (fetch_user_data_to_json (lib_for []) offline fresh)))) = 2 \<and>
   sent (with_snapshot (str ''[]'')) = 0 \<and>
   sent (snd (fetch_user_data_to_json (lib_for []) offline
           (snd (fetch_user_data_to_json (lib_for []) offline (with_snapshot (str ''[]'')))))) = 0"
proof -
  have 1: "fetch_user_data_to_json (lib_for []) offline fresh =
      (Inr (), fresh\<lparr>sent := 1, logged := [(2, FailedToFetch (TransportFailure (str ''Connection refused'')))]\<rparr>)"
    using fetch_failed [of fresh offline "TransportFailure (str ''Connection refused'')" "lib_for []"]
      fresh_no_snapshot
    by (simp add: offline_def fresh_def)
  have 2: "\<not> path_exists
      (fs (fresh\<lparr>sent := 1, logged := [(2, FailedToFetch (TransportFailure (str ''Connection refused'')))]\<rparr>))
      USERS_JSON_FILE"
    using fresh_no_snapshot by simp
  have 3: "sent (snd (fetch_user_data_to_json (lib_for []) offline
           (snd (fetch_user_data_to_json (lib_for []) offline fresh)))) = 2"
    unfolding 1 snd_conv
    using fetch_failed [OF 2, of offline "TransportFailure (str ''Connection refused'')" "lib_for []"]
    by (simp add: offline_def)
  have 4: "sent (snd (fetch_user_data_to_json (lib_for []) offline
           (snd (fetch_user_data_to_json (lib_for []) offline (with_snapshot (str ''[]'')))))) = 0"
    using with_snapshot_cached [of "str ''[]''"]
    by (simp add: fetch_cached path_exists_def) (simp add: with_snapshot_def fresh_def)
  show ?thesis using 3 4 by (simp add: fresh_def with_snapshot_def)
qed

text \<open>
  C4, as the code has it. The snapshot is absent, its folder exists, and the request
  is answered without an error status. If the body decodes, the call writes to the
  snapshot path what \<open>json.dump\<close> makes of the decoded value, and nothing else changes in
  the file system: the snapshot is the body decoded and encoded again, not the text of
  the body. If the body does not decode, the call raises the exception of the decoder.
\<close>

theorem snapshot_is_reencoded:
  assumes "\<not> path_exists (fs w) USERS_JSON_FILE" and "is_dir (fs w) DATA_FOLDER"
    and "net (sent w) = Returns r" and "http_error r = None"
  shows "(json_loads lib (body r) = Inr v \<longrightarrow>
            fst (fetch_user_data_to_json lib net w) = Inr () \<and>
            fs (snd (fetch_user_data_to_json lib net w)) =
              (fs w)(USERS_JSON_FILE \<mapsto> File (Text (json_dumps v))) \<and>
            logged (snd (fetch_user_data_to_json lib net w)) =
              logged w @ [(1, JsonCreated USERS_JSON_FILE)]) \<and>
         (json_loads lib (body r) = Inl err \<longrightarrow>
            fst (fetch_user_data_to_json lib net w) = Inl err)"
  using assms by (simp add: fetch_succeeded fetch_undecodable)

theorem snapshot_is_reencoded_witness:
  "\<not> path_exists (fs fresh) USERS_JSON_FILE \<and> is_dir (fs fresh) DATA_FOLDER \<and>
   json_loads (lib_for one_two) (str ''[1,2]'') = Inr (JArr [JInt 1, JInt 2]) \<and>
   fs (snd (fetch_user_data_to_json (lib_for one_two) (answering (str ''[1,2]'')) fresh)) =
     (fs fresh)(USERS_JSON_FILE \<mapsto> File (Text (json_dumps (JArr [JInt 1, JInt 2])))) \<and>
   json_loads (lib_for one_two) (str ''<html>'') = Inl JSONDecodeError \<and>
   fst (fetch_user_data_to_json (lib_for one_two) (answering (str ''<html>'')) fresh) =
     Inl JSONDecodeError"
  using snapshot_is_reencoded [of fresh "answering (str ''[1,2]'')"
      "\<lparr>status_code = 200, body = str ''[1,2]''\<rparr>" "lib_for one_two" "JArr [JInt 1, JInt 2]"]
    snapshot_is_reencoded [of fresh "answering (str ''<html>'')"
      "\<lparr>status_code = 200, body = str ''<html>''\<rparr>" "lib_for one_two" _ JSONDecodeError]
    fresh_no_snapshot fresh_data_folder loads_one_two
  by (simp add: answering_def http_error_def)
    (simp add: lib_for_def loads_table_def one_two_def str_def)

text \<open>
  The snapshot is not the body as received: the body \<open>[1,2]\<close> is answered, and the
  snapshot holds \<open>[1, 2]\<close>.
\<close>

theorem snapshot_verbatim_counterexample:
  "answering (str ''[1,2]'') 0 = Returns \<lparr>status_code = 200, body = str ''[1,2]''\<rparr> \<and>
   fs (snd (fetch_user_data_to_json (lib_for one_two) (answering (str ''[1,2]'')) fresh))
     USERS_JSON_FILE = Some (File (Text (str ''[1, 2]''))) \<and>
   fs (snd (fetch_user_data_to_json (lib_for one_two) (answering (str ''[1,2]'')) fresh))
     USERS_JSON_FILE \<noteq> Some (File (Text (str ''[1,2]'')))"
  using fetch_succeeded [of fresh "answering (str ''[1,2]'')"
      "\<lparr>status_code = 200, body = str ''[1,2]''\<rparr>" "lib_for one_two" "JArr [JInt 1, JInt 2]"]
    fresh_no_snapshot fresh_data_folder loads_one_two dumps_one_two
  by (simp add: answering_def http_error_def) (simp add: str_def)


subsection \<open>An export without a snapshot\<close>



subsection \<open>The steps of the export\<close>

text \<open>
  A sort that is stable, keeps the elements and leaves the keys ascending is
  \<open>sort_key\<close> (\<open>properties_for_sort_key\<close>), whatever its algorithm; sorting the
  elements decorated with their keys is sorting them by the key.
\<close>

lemma insort_key_decorated:
  "insort_key fst (f x, x) (map (\<lambda>y. (f y, y)) ys) = map (\<lambda>y. (f y, y)) (insort_key f x ys)"
  by (induction ys) simp_all

lemma sort_key_decorated:
  "sort_key fst (map (\<lambda>y. (f y, y)) xs) = map (\<lambda>y. (f y, y)) (sort_key f xs)"
  by (induction xs) (simp_all add: insort_key_decorated)

lemma name_key_eq_Inr:
  "name_key user = Inr k \<longleftrightarrow>
     (\<exists>n. getitem user (str ''name'') = Inr (JStr n) \<and> split n \<noteq> [] \<and>
          k = (last (split n), hd (split n)))"
  apply (cases "getitem user (str ''name'')")
  apply (simp add: name_key_def last_name_def first_name_def)
  subgoal for v
    apply (cases v; cases "split (case v of JStr s \<Rightarrow> s | _ \<Rightarrow> [])")
    apply (auto simp: name_key_def last_name_def first_name_def last_item_def first_item_def)
    done
  done

lemma py_sorted_name_key:
  assumes "py_sorted name_key xs = Inr ys"
  shows "ys = sort_key key_of xs \<and> (\<forall>x \<in> set xs. name_key x = Inr (key_of x))"
proof -
  from assms obtain ks where ks: "list_all2 (\<lambda>x k. name_key x = Inr k) xs ks"
    and ys: "ys = map snd (sort_key fst (zip ks xs))"
    by (auto simp: py_sorted_def and_then_eq_Inr map_err_eq_Inr)
  from ks have all: "\<forall>x \<in> set xs. name_key x = Inr (key_of x)"
    by (induction rule: list_all2_induct) (auto simp: key_of_def)
  from ks have "ks = map key_of xs"
    by (induction rule: list_all2_induct) (auto simp: key_of_def)
  then have "zip ks xs = map (\<lambda>y. (key_of y, y)) xs"
    by (simp add: zip_map1 zip_same_conv_map)
  with ys have "ys = sort_key key_of xs"
    by (simp add: sort_key_decorated comp_def)
  with all show ?thesis by simp
qed

lemma names_eq_Inr:
  "last_name user = Inr l \<and> first_name user = Inr f \<longleftrightarrow>
     (\<exists>n. getitem user (str ''name'') = Inr (JStr n) \<and> split n \<noteq> [] \<and>
          l = last (split n) \<and> f = hd (split n))"
  using name_key_eq_Inr [of user "(l, f)"]
  by (auto simp: name_key_def and_then_eq_Inr)

lemma address_item_eq_Inr:
  "address_item user k = Inr v \<longleftrightarrow>
     (\<exists>a. getitem user (str ''address'') = Inr a \<and> getitem a (str k) = Inr v)"
  by (simp add: address_item_def and_then_eq_Inr)

lemma user_row_eq_Inr:
  "user_row user = Inr row \<longleftrightarrow>
     (\<exists>n email street city zipcode phone website.
        getitem user (str ''name'') = Inr (JStr n) \<and> split n \<noteq> [] \<and>
        getitem user (str ''email'') = Inr email \<and>
        address_item user ''street'' = Inr street \<and>
        address_item user ''city'' = Inr city \<and>
        address_item user ''zipcode'' = Inr zipcode \<and>
        getitem user (str ''phone'') = Inr phone \<and>
        getitem user (str ''website'') = Inr website \<and>
        row = [JStr (last (split n)), JStr (hd (split n)), email, street, city, zipcode,
               phone, website])"
proof -
  have "user_row user = Inr row \<longleftrightarrow>
     (\<exists>l f email street city zipcode phone website.
        (last_name user = Inr l \<and> first_name user = Inr f) \<and>
        getitem user (str ''email'') = Inr email \<and>
        address_item user ''street'' = Inr street \<and>
        address_item user ''city'' = Inr city \<and>
        address_item user ''zipcode'' = Inr zipcode \<and>
        getitem user (str ''phone'') = Inr phone \<and>
        getitem user (str ''website'') = Inr website \<and>
        row = [JStr l, JStr f, email, street, city, zipcode, phone, website])"
    unfolding user_row_def and_then_eq_Inr by blast
  then show ?thesis
    unfolding names_eq_Inr by blast
qed

lemma map_filter_eq_Nil: "List.map_filter f xs = [] \<longleftrightarrow> (\<forall>c \<in> set xs. f c = None)"
  by (induction xs) (auto simp: List.map_filter_simps split: option.splits)

lemma ws_append_eq_Inr:
  "ws_append lib ws row = Inr ws' \<longleftrightarrow>
     (\<forall>c \<in> set row. cell_error lib c = None) \<and> ws' = ws @ [row]"
proof (cases "List.map_filter (cell_error lib) row")
  case Nil
  then show ?thesis
    using map_filter_eq_Nil [of "cell_error lib" row] by (auto simp: ws_append_def)
next
  case (Cons e es)
  then show ?thesis
    using map_filter_eq_Nil [of "cell_error lib" row] by (auto simp: ws_append_def)
qed

lemma append_users_eq_Inr:
  "append_users lib ws users = Inr ws' \<longleftrightarrow>
     (\<exists>rows. list_all2 (\<lambda>user row. user_row user = Inr row) users rows \<and>
        (\<forall>row \<in> set rows. \<forall>c \<in> set row. cell_error lib c = None) \<and> ws' = ws @ rows)"
proof (induction users arbitrary: ws)
  case Nil
  then show ?case by auto
next
  case (Cons u us)
  show ?case
    unfolding append_users.simps and_then_eq_Inr Cons.IH ws_append_eq_Inr
    by (auto simp: list_all2_Cons1)
qed

lemma build_sheet_eq_Inr:
  assumes "build_sheet lib files = Inr ws"
  shows "\<exists>s users us rows.
     read_text files USERS_JSON_FILE = Inr s \<and> json_loads lib s = Inr users \<and>
     iterate users = Inr us \<and> py_sorted name_key us = Inr (sort_key key_of us) \<and>
     list_all2 (\<lambda>user row. user_row user = Inr row) (sort_key key_of us) rows \<and>
     ws = header # rows"
proof -
  from assms obtain s users ws0 us sus where s: "read_text files USERS_JSON_FILE = Inr s"
    and users: "json_loads lib s = Inr users"
    and ws0: "ws_append lib [] header = Inr ws0"
    and us: "iterate users = Inr us" and sus: "py_sorted name_key us = Inr sus"
    and ws: "append_users lib ws0 sus = Inr ws"
    unfolding build_sheet_def and_then_eq_Inr by blast
  from sus have sus': "sus = sort_key key_of us"
    using py_sorted_name_key by blast
  from ws0 have "ws0 = [header]"
    by (simp add: ws_append_eq_Inr)
  with ws obtain rows where "list_all2 (\<lambda>user row. user_row user = Inr row) sus rows"
    and "ws = header # rows"
    by (auto simp: append_users_eq_Inr)
  with s users us sus sus' show ?thesis by blast
qed

lemma export_eq_Inr:
  assumes "write_user_data_to_excel lib now folder w = (Inr (), w')"
  shows "\<exists>ws. build_sheet lib (fs w) = Inr ws \<and>
     fs w' = (fs w)(folder @ [export_name now] \<mapsto> File (Xlsx ws)) \<and>
     logged w' = logged w @ [(1, ExcelSaved (folder @ [export_name now]))] \<and>
     sent w' = sent w"
  using assms
  by (auto simp: write_user_data_to_excel_def create_file_def log_def Let_def
      split: sum.splits if_splits)

lemma export_Inl:
  "fst (write_user_data_to_excel lib now folder w) = Inl err \<Longrightarrow>
   write_user_data_to_excel lib now folder w = (Inl err, w)"
  by (auto simp: write_user_data_to_excel_def Let_def split: sum.splits)

subsection \<open>The export\<close>

lemma getitem_mk_user:
  "getitem (mk_user n e p s c z w) (str ''name'') = Inr (JStr (str n))"
  "getitem (mk_user n e p s c z w) (str ''email'') = Inr (JStr (str e))"
  "getitem (mk_user n e p s c z w) (str ''phone'') = Inr (JStr (str p))"
  "getitem (mk_user n e p s c z w) (str ''website'') = Inr (JStr (str w))"
  "address_item (mk_user n e p s c z w) ''street'' = Inr (JStr (str s))"
  "address_item (mk_user n e p s c z w) ''city'' = Inr (JStr (str c))"
  "address_item (mk_user n e p s c z w) ''zipcode'' = Inr (JStr (str z))"
  by (simp_all add: mk_user_def address_item_def str_def)

lemma split_examples:
  "split (str ''Alice Zephyr'') = [str ''Alice'', str ''Zephyr'']"
  "split (str ''Bob Able'') = [str ''Bob'', str ''Able'']"
  "split (str ''Carl Able'') = [str ''Carl'', str ''Able'']"
  "split (str ''Jane Doe'') = [str ''Jane'', str ''Doe'']"
  "split (str ''Nicholas Runolfsdottir V'') = [str ''Nicholas'', str ''Runolfsdottir'', str ''V'']"
  by (simp_all add: split_def str_def isspace_def)

lemma name_key_mk_user:
  "split (str n) \<noteq> [] \<Longrightarrow>
   name_key (mk_user n e p s c z w) = Inr (last (split (str n)), hd (split (str n)))"
  by (simp add: name_key_eq_Inr getitem_mk_user)

lemma user_row_mk_user:
  "split (str n) \<noteq> [] \<Longrightarrow>
   user_row (mk_user n e p s c z w) =
     Inr [JStr (last (split (str n))), JStr (hd (split (str n))), JStr (str e), JStr (str s),
          JStr (str c), JStr (str z), JStr (str p), JStr (str w)]"
  by (simp add: user_row_eq_Inr getitem_mk_user)

lemma name_key_examples:
  "name_key alice = Inr (str ''Zephyr'', str ''Alice'')"
  "name_key bob = Inr (str ''Able'', str ''Bob'')"
  "name_key carl = Inr (str ''Able'', str ''Carl'')"
  "name_key jane = Inr (str ''Doe'', str ''Jane'')"
  by (simp_all add: alice_def bob_def carl_def jane_def name_key_mk_user split_examples)

lemma user_row_examples:
  "user_row alice = Inr (map (\<lambda>s. JStr (str s))
     [''Zephyr'', ''Alice'', ''alice@x.com'', ''1 Elm'', ''Ayr'', ''10001'', ''1'', ''a.org''])"
  "user_row bob = Inr (map (\<lambda>s. JStr (str s))
     [''Able'', ''Bob'', ''bob@x.com'', ''2 Oak'', ''Bath'', ''10002'', ''2'', ''b.org''])"
  "user_row carl = Inr (map (\<lambda>s. JStr (str s))
     [''Able'', ''Carl'', ''carl@x.com'', ''3 Ash'', ''Cork'', ''10003'', ''3'', ''c.org''])"
  "user_row jane = Inr (map (\<lambda>s. JStr (str s))
     [''Doe'', ''Jane'', ''j@x.com'', ''1 Main'', ''Springfield'', ''00001'', ''555'', ''x.com''])"
  by (simp_all add: alice_def bob_def carl_def jane_def user_row_mk_user split_examples)

lemma sorted_examples:
  "py_sorted name_key [alice, bob, carl] = Inr [bob, carl, alice]"
  "py_sorted name_key [jane] = Inr [jane]"
  by (simp_all add: py_sorted_def name_key_examples) (simp add: str_def)

lemma export_succeeds:
  assumes "fs w USERS_JSON_FILE = Some (File (Text s))" and "json_loads lib s = Inr users"
    and "iterate users = Inr us" and "py_sorted name_key us = Inr sorted_users"
    and "list_all2 (\<lambda>user row. user_row user = Inr row) sorted_users rows"
    and "\<forall>row \<in> set (header # rows). \<forall>c \<in> set row. cell_error lib c = None"
    and "is_dir (fs w) folder" and "fs w (folder @ [export_name now]) \<noteq> Some Dir"
  shows "write_user_data_to_excel lib now folder w =
     (Inr (), w\<lparr>fs := (fs w)(folder @ [export_name now] \<mapsto> File (Xlsx (header # rows))),
                logged := logged w @ [(1, ExcelSaved (folder @ [export_name now]))]\<rparr>)"
proof -
  have "read_text (fs w) USERS_JSON_FILE = Inr s"
    using assms(1) by (simp add: read_text_def users_json_file_parent)
  moreover have "ws_append lib [] header = Inr [header]"
    using assms(6) by (simp add: ws_append_eq_Inr)
  moreover have "append_users lib [header] sorted_users = Inr (header # rows)"
    using assms(5,6) by (auto simp: append_users_eq_Inr)
  ultimately have "build_sheet lib (fs w) = Inr (header # rows)"
    using assms(2,3,4) by (simp add: build_sheet_def)
  then show ?thesis
    using assms(7,8) by (simp add: write_user_data_to_excel_def create_file_def log_def Let_def)
qed

lemma snapshot_of_simps:
  "fs (snapshot_of v) USERS_JSON_FILE = Some (File (Text (json_dumps v)))"
  "json_loads (knowing v) (json_dumps v) = Inr v"
  "is_dir (fs (snapshot_of v)) [str ''files'']"
  "fs (snapshot_of v) [str ''files'', name] = None"
  "cell_error (knowing v) (JStr x) = None"
     apply (simp_all add: snapshot_of_def with_snapshot_def knowing_def lib_for_def loads_table_def
      is_dir_def fresh_def)
   apply (simp_all add: USERS_JSON_FILE_def DATA_FOLDER_def str_def)
  done

lemma header_cells: "\<forall>c \<in> set header. cell_error (knowing v) c = None"
  by (simp add: header_def snapshot_of_simps)

lemma export_three:
  "write_user_data_to_excel (knowing three_users) noon [str ''files''] (snapshot_of three_users) =
   (Inr (), (snapshot_of three_users)
      \<lparr>fs := (fs (snapshot_of three_users))
          ([str ''files''] @ [export_name noon] \<mapsto> File (Xlsx (header #
       map (map (\<lambda>s. JStr (str s)))
        [[''Able'', ''Bob'', ''bob@x.com'', ''2 Oak'', ''Bath'', ''10002'', ''2'', ''b.org''],
         [''Able'', ''Carl'', ''carl@x.com'', ''3 Ash'', ''Cork'', ''10003'', ''3'', ''c.org''],
         [''Zephyr'', ''Alice'', ''alice@x.com'', ''1 Elm'', ''Ayr'', ''10001'', ''1'', ''a.org'']]))),
        logged := logged (snapshot_of three_users) @
          [(1, ExcelSaved ([str ''files''] @ [export_name noon]))]\<rparr>)"
proof (rule export_succeeds [where s = "json_dumps three_users" and users = three_users
      and us = "[alice, bob, carl]" and sorted_users = "[bob, carl, alice]"])
  show "iterate three_users = Inr [alice, bob, carl]"
    by (simp add: three_users_def)
  show "py_sorted name_key [alice, bob, carl] = Inr [bob, carl, alice]"
    by (rule sorted_examples)
qed (simp_all add: snapshot_of_simps user_row_examples header_cells)

lemma export_ok_sheet:
  assumes "fst (write_user_data_to_excel lib now folder w) = Inr ()"
  shows "\<exists>s users us rows.
     read_text (fs w) USERS_JSON_FILE = Inr s \<and> json_loads lib s = Inr users \<and>
     iterate users = Inr us \<and> py_sorted name_key us = Inr (sort_key key_of us) \<and>
     list_all2 (\<lambda>user row. user_row user = Inr row) (sort_key key_of us) rows \<and>
     fs (snd (write_user_data_to_excel lib now folder w)) (folder @ [export_name now]) =
       Some (File (Xlsx (header # rows)))"
proof -
  from assms have "write_user_data_to_excel lib now folder w =
      (Inr (), snd (write_user_data_to_excel lib now folder w))"
    by (metis prod.collapse)
  from export_eq_Inr [OF this] obtain ws where ws: "build_sheet lib (fs w) = Inr ws"
    and saved: "fs (snd (write_user_data_to_excel lib now folder w)) =
      (fs w)(folder @ [export_name now] \<mapsto> File (Xlsx ws))"
    by blast
  from build_sheet_eq_Inr [OF ws] saved show ?thesis
    by fastforce
qed

lemma key_of_tokens:
  "getitem user (str ''name'') = Inr (JStr n) \<Longrightarrow> split n \<noteq> [] \<Longrightarrow>
   key_of user = (last (split n), hd (split n))"
  using name_key_eq_Inr [of user "(last (split n), hd (split n))"]
  by (simp add: key_of_def)

lemma user_row_names:
  assumes "user_row user = Inr row"
  shows "take 2 row = [JStr (fst (key_of user)), JStr (snd (key_of user))]"
  using assms by (auto simp: user_row_eq_Inr key_of_tokens)

lemma rows_names:
  assumes "list_all2 (\<lambda>user row. user_row user = Inr row) users rows"
  shows "map (take 2) rows = map (\<lambda>u. [JStr (fst (key_of u)), JStr (snd (key_of u))]) users"
  using assms by (induction rule: list_all2_induct) (simp_all add: user_row_names)

text \<open>
  C2. An export that succeeds has sorted the whole sequence of records read from the
  snapshot: the sorted sequence is a permutation of it, its keys are ascending, and
  records with the same key keep the order they had (the sort is stable). The key of a
  record is the pair of the last and the first token of its name, split at whitespace;
  pairs and strings are compared lexicographically, strings by code point. The rows
  saved after the header are the rows of the sorted records, in that order, each
  beginning with the last and the first name of its record. For the names
  \<open>Alice Zephyr\<close>, \<open>Bob Able\<close>, \<open>Carl Able\<close> the rows begin \<open>Able, Bob\<close>;
  \<open>Able, Carl\<close>; \<open>Zephyr, Alice\<close>, as the example after the theorem evaluates.
\<close>

theorem rows_sorted_by_last_then_first_name:
  assumes "fst (write_user_data_to_excel lib now folder w) = Inr ()"
    and "read_text (fs w) USERS_JSON_FILE = Inr s" and "json_loads lib s = Inr users"
    and "iterate users = Inr us"
  shows "\<exists>sorted_users rows.
     py_sorted name_key us = Inr sorted_users \<and>
     mset sorted_users = mset us \<and>
     sorted (map key_of sorted_users) \<and>
     (\<forall>k. filter (\<lambda>u. key_of u = k) sorted_users = filter (\<lambda>u. key_of u = k) us) \<and>
     (\<forall>u \<in> set us. \<exists>n. getitem u (str ''name'') = Inr (JStr n) \<and> split n \<noteq> [] \<and>
        key_of u = (last (split n), hd (split n))) \<and>
     fs (snd (write_user_data_to_excel lib now folder w)) (folder @ [export_name now]) =
       Some (File (Xlsx (header # rows))) \<and>
     map (take 2) rows = map (\<lambda>u. [JStr (fst (key_of u)), JStr (snd (key_of u))]) sorted_users"
proof -
  from export_ok_sheet [OF assms(1)] assms(2-4) obtain rows
    where sorted: "py_sorted name_key us = Inr (sort_key key_of us)"
      and rows: "list_all2 (\<lambda>user row. user_row user = Inr row) (sort_key key_of us) rows"
      and saved: "fs (snd (write_user_data_to_excel lib now folder w))
        (folder @ [export_name now]) = Some (File (Xlsx (header # rows)))"
    by auto
  from sorted have keys: "\<forall>u \<in> set us. name_key u = Inr (key_of u)"
    using py_sorted_name_key by blast
  then have tokens: "\<forall>u \<in> set us. \<exists>n. getitem u (str ''name'') = Inr (JStr n) \<and>
      split n \<noteq> [] \<and> key_of u = (last (split n), hd (split n))"
    by (simp add: name_key_eq_Inr)
  from rows have "map (take 2) rows =
      map (\<lambda>u. [JStr (fst (key_of u)), JStr (snd (key_of u))]) (sort_key key_of us)"
    by (rule rows_names)
  with sorted tokens saved show ?thesis
    by (intro exI [of _ "sort_key key_of us"] exI [of _ rows])
      (simp add: sort_key_stable)
qed

lemma export_examples_ok:
  "fst (write_user_data_to_excel (knowing three_users) noon [str ''files'']
          (snapshot_of three_users)) = Inr ()"
  by (simp add: export_three)

lemma read_snapshot_of: "read_text (fs (snapshot_of v)) USERS_JSON_FILE = Inr (json_dumps v)"
  by (simp add: read_text_def snapshot_of_simps users_json_file_parent)

lemma key_of_examples:
  "key_of alice = (str ''Zephyr'', str ''Alice'')"
  "key_of bob = (str ''Able'', str ''Bob'')"
  "key_of carl = (str ''Able'', str ''Carl'')"
  by (simp_all add: key_of_def name_key_examples)

theorem rows_sorted_by_last_then_first_name_witness:
  "fst (write_user_data_to_excel (knowing three_users) noon [str ''files'']
          (snapshot_of three_users)) = Inr () \<and>
   read_text (fs (snapshot_of three_users)) USERS_JSON_FILE = Inr (json_dumps three_users) \<and>
   json_loads (knowing three_users) (json_dumps three_users) = Inr three_users \<and>
   iterate three_users = Inr [alice, bob, carl] \<and>
   py_sorted name_key [alice, bob, carl] = Inr [bob, carl, alice] \<and>
   sorted (map key_of [bob, carl, alice]) \<and>
   (\<exists>rows.
      fs (snd (write_user_data_to_excel (knowing three_users) noon [str ''files'']
                 (snapshot_of three_users))) ([str ''files''] @ [export_name noon]) =
        Some (File (Xlsx (header # rows))) \<and>
      map (take 2) rows =
        [[JStr (str ''Able''), JStr (str ''Bob'')], [JStr (str ''Able''), JStr (str ''Carl'')],
         [JStr (str ''Zephyr''), JStr (str ''Alice'')]])"
proof -
  have it: "iterate three_users = Inr [alice, bob, carl]"
    by (simp add: three_users_def)
  from rows_sorted_by_last_then_first_name
    [OF export_examples_ok read_snapshot_of snapshot_of_simps(2) it]
  obtain sorted_users rows where "py_sorted name_key [alice, bob, carl] = Inr sorted_users"
    and "sorted (map key_of sorted_users)"
    and "fs (snd (write_user_data_to_excel (knowing three_users) noon [str ''files'']
                 (snapshot_of three_users))) ([str ''files''] @ [export_name noon]) =
        Some (File (Xlsx (header # rows)))"
    and "map (take 2) rows =
        map (\<lambda>u. [JStr (fst (key_of u)), JStr (snd (key_of u))]) sorted_users"
    by blast
  moreover from this have "sorted_users = [bob, carl, alice]"
    by (simp add: sorted_examples)
  ultimately show ?thesis
    using export_examples_ok read_snapshot_of [of three_users] snapshot_of_simps(2) [of three_users] it
    by (auto simp: key_of_examples sorted_examples)
qed

text \<open>
  C3. An export that succeeds has saved a table of one header row, with the eight
  labels \<open>last name\<close>, \<open>first name\<close>, \<open>email\<close>, \<open>street\<close>, \<open>city\<close>, \<open>zipcode\<close>,
  \<open>phone\<close>, \<open>website\<close>, followed by exactly one row for each record, in sorted order;
  the row of a record is its last name token, its first name token, its email, the
  street, city and zipcode of its address, its phone and its website. The record of
  \<open>Jane Doe\<close> gives the row \<open>Doe, Jane, j@x.com, 1 Main, Springfield, 00001, 555, x.com\<close>,
  as the example after the theorem evaluates.
\<close>

theorem exported_table_shape:
  assumes "fst (write_user_data_to_excel lib now folder w) = Inr ()"
  shows "\<exists>s users us sorted_users rows.
     read_text (fs w) USERS_JSON_FILE = Inr s \<and> json_loads lib s = Inr users \<and>
     iterate users = Inr us \<and> py_sorted name_key us = Inr sorted_users \<and>
     fs (snd (write_user_data_to_excel lib now folder w)) (folder @ [export_name now]) =
       Some (File (Xlsx (header # rows))) \<and>
     header = map (\<lambda>label. JStr (str label))
       [''last name'', ''first name'', ''email'', ''street'', ''city'', ''zipcode'', ''phone'',
        ''website''] \<and>
     length sorted_users = length us \<and> length rows = length sorted_users \<and>
     (\<forall>i < length rows.
        \<exists>n email address street city zipcode phone website.
          getitem (sorted_users ! i) (str ''name'') = Inr (JStr n) \<and> split n \<noteq> [] \<and>
          getitem (sorted_users ! i) (str ''email'') = Inr email \<and>
          getitem (sorted_users ! i) (str ''address'') = Inr address \<and>
          getitem address (str ''street'') = Inr street \<and>
          getitem address (str ''city'') = Inr city \<and>
          getitem address (str ''zipcode'') = Inr zipcode \<and>
          getitem (sorted_users ! i) (str ''phone'') = Inr phone \<and>
          getitem (sorted_users ! i) (str ''website'') = Inr website \<and>
          rows ! i = [JStr (last (split n)), JStr (hd (split n)), email, street, city, zipcode,
                      phone, website])"
proof -
  from export_ok_sheet [OF assms] obtain s users us rows
    where read: "read_text (fs w) USERS_JSON_FILE = Inr s" "json_loads lib s = Inr users"
      "iterate users = Inr us" "py_sorted name_key us = Inr (sort_key key_of us)"
      and rows: "list_all2 (\<lambda>user row. user_row user = Inr row) (sort_key key_of us) rows"
      and saved: "fs (snd (write_user_data_to_excel lib now folder w))
        (folder @ [export_name now]) = Some (File (Xlsx (header # rows)))"
    by blast
  from rows have len: "length rows = length (sort_key key_of us)"
    using list_all2_lengthD by fastforce
  have each: "\<exists>n email address street city zipcode phone website.
          getitem (sort_key key_of us ! i) (str ''name'') = Inr (JStr n) \<and> split n \<noteq> [] \<and>
          getitem (sort_key key_of us ! i) (str ''email'') = Inr email \<and>
          getitem (sort_key key_of us ! i) (str ''address'') = Inr address \<and>
          getitem address (str ''street'') = Inr street \<and>
          getitem address (str ''city'') = Inr city \<and>
          getitem address (str ''zipcode'') = Inr zipcode \<and>
          getitem (sort_key key_of us ! i) (str ''phone'') = Inr phone \<and>
          getitem (sort_key key_of us ! i) (str ''website'') = Inr website \<and>
          rows ! i = [JStr (last (split n)), JStr (hd (split n)), email, street, city, zipcode,
                      phone, website]" if "i < length rows" for i
  proof -
    from that len have "i < length (sort_key key_of us)"
      by simp
    with rows have "user_row (sort_key key_of us ! i) = Inr (rows ! i)"
      by (rule list_all2_nthD)
    then obtain n email street city zipcode phone website
      where n: "getitem (sort_key key_of us ! i) (str ''name'') = Inr (JStr n)" "split n \<noteq> []"
        and fields: "getitem (sort_key key_of us ! i) (str ''email'') = Inr email"
          "getitem (sort_key key_of us ! i) (str ''phone'') = Inr phone"
          "getitem (sort_key key_of us ! i) (str ''website'') = Inr website"
        and addr: "address_item (sort_key key_of us ! i) ''street'' = Inr street"
          "address_item (sort_key key_of us ! i) ''city'' = Inr city"
          "address_item (sort_key key_of us ! i) ''zipcode'' = Inr zipcode"
        and row: "rows ! i = [JStr (last (split n)), JStr (hd (split n)), email, street, city,
          zipcode, phone, website]"
      unfolding user_row_eq_Inr by blast
    from addr obtain address
      where "getitem (sort_key key_of us ! i) (str ''address'') = Inr address"
        "getitem address (str ''street'') = Inr street"
        "getitem address (str ''city'') = Inr city"
        "getitem address (str ''zipcode'') = Inr zipcode"
      by (auto simp: address_item_eq_Inr)
    with n fields row show ?thesis by blast
  qed
  have "header = map (\<lambda>label. JStr (str label))
       [''last name'', ''first name'', ''email'', ''street'', ''city'', ''zipcode'', ''phone'',
        ''website'']"
    by (simp add: header_def)
  with read saved len each show ?thesis
    by (intro exI [of _ s] exI [of _ users] exI [of _ us] exI [of _ "sort_key key_of us"]
        exI [of _ rows]) simp
qed

lemma export_jane:
  "write_user_data_to_excel (knowing only_jane) noon [str ''files''] (snapshot_of only_jane) =
   (Inr (), (snapshot_of only_jane)
      \<lparr>fs := (fs (snapshot_of only_jane))
          ([str ''files''] @ [export_name noon] \<mapsto> File (Xlsx (header #
       map (map (\<lambda>s. JStr (str s)))
        [[''Doe'', ''Jane'', ''j@x.com'', ''1 Main'', ''Springfield'', ''00001'', ''555'',
          ''x.com'']]))),
        logged := logged (snapshot_of only_jane) @
          [(1, ExcelSaved ([str ''files''] @ [export_name noon]))]\<rparr>)"
proof (rule export_succeeds [where s = "json_dumps only_jane" and users = only_jane
      and us = "[jane]" and sorted_users = "[jane]"])
  show "py_sorted name_key [jane] = Inr [jane]"
    by (rule sorted_examples)
  show "iterate only_jane = Inr [jane]"
    by (simp add: only_jane_def)
qed (simp_all add: snapshot_of_simps user_row_examples header_cells)

theorem exported_table_shape_witness:
  "fst (write_user_data_to_excel (knowing only_jane) noon [str ''files'']
          (snapshot_of only_jane)) = Inr () \<and>
   (\<exists>rows.
      fs (snd (write_user_data_to_excel (knowing only_jane) noon [str ''files'']
                 (snapshot_of only_jane))) ([str ''files''] @ [export_name noon]) =
        Some (File (Xlsx (header # rows))) \<and>
      length rows = 1 \<and>
      rows ! 0 = [JStr (str ''Doe''), JStr (str ''Jane''), JStr (str ''j@x.com''),
                  JStr (str ''1 Main''), JStr (str ''Springfield''), JStr (str ''00001''),
                  JStr (str ''555''), JStr (str ''x.com'')])"
proof -
  have ok: "fst (write_user_data_to_excel (knowing only_jane) noon [str ''files'']
          (snapshot_of only_jane)) = Inr ()"
    by (simp add: export_jane)
  from exported_table_shape [OF ok] obtain s users us sorted_users rows
    where "read_text (fs (snapshot_of only_jane)) USERS_JSON_FILE = Inr s"
      and "json_loads (knowing only_jane) s = Inr users"
      and "iterate users = Inr us" and "py_sorted name_key us = Inr sorted_users"
      and saved: "fs (snd (write_user_data_to_excel (knowing only_jane) noon [str ''files'']
                 (snapshot_of only_jane))) ([str ''files''] @ [export_name noon]) =
        Some (File (Xlsx (header # rows)))"
      and len: "length sorted_users = length us" "length rows = length sorted_users"
      and each: "\<forall>i < length rows.
        \<exists>n email address street city zipcode phone website.
          getitem (sorted_users ! i) (str ''name'') = Inr (JStr n) \<and> split n \<noteq> [] \<and>
          getitem (sorted_users ! i) (str ''email'') = Inr email \<and>
          getitem (sorted_users ! i) (str ''address'') = Inr address \<and>
          getitem address (str ''street'') = Inr street \<and>
          getitem address (str ''city'') = Inr city \<and>
          getitem address (str ''zipcode'') = Inr zipcode \<and>
          getitem (sorted_users ! i) (str ''phone'') = Inr phone \<and>
          getitem (sorted_users ! i) (str ''website'') = Inr website \<and>
          rows ! i = [JStr (last (split n)), JStr (hd (split n)), email, street, city, zipcode,
                      phone, website]"
    by blast
  moreover have "iterate only_jane = Inr [jane]"
    by (simp add: only_jane_def)
  ultimately have "sorted_users = [jane]"
    by (auto simp: read_snapshot_of snapshot_of_simps sorted_examples)
  with len have one: "length rows = 1"
    by simp
  then have "0 < length rows"
    by simp
  with each have "\<exists>n email address street city zipcode phone website.
          getitem (sorted_users ! 0) (str ''name'') = Inr (JStr n) \<and> split n \<noteq> [] \<and>
          getitem (sorted_users ! 0) (str ''email'') = Inr email \<and>
          getitem (sorted_users ! 0) (str ''address'') = Inr address \<and>
          getitem address (str ''street'') = Inr street \<and>
          getitem address (str ''city'') = Inr city \<and>
          getitem address (str ''zipcode'') = Inr zipcode \<and>
          getitem (sorted_users ! 0) (str ''phone'') = Inr phone \<and>
          getitem (sorted_users ! 0) (str ''website'') = Inr website \<and>
          rows ! 0 = [JStr (last (split n)), JStr (hd (split n)), email, street, city, zipcode,
                      phone, website]"
    by blast
  with one \<open>sorted_users = [jane]\<close> have "length rows = 1" and
    "rows ! 0 = [JStr (str ''Doe''), JStr (str ''Jane''), JStr (str ''j@x.com''),
                  JStr (str ''1 Main''), JStr (str ''Springfield''), JStr (str ''00001''),
                  JStr (str ''555''), JStr (str ''x.com'')]"
    using getitem_mk_user [of "''Jane Doe''" "''j@x.com''" "''555''" "''1 Main''" "''Springfield''"
        "''00001''" "''x.com''"]
    by (auto simp: jane_def [symmetric] split_examples address_item_def and_then_eq_Inr)
  with ok saved show ?thesis by blast
qed

text \<open>
  C9. For a record whose name has at least one token, taking the last and the first
  token does not fail: the sort key is the pair of the two, and the row, when the other
  fields are there, begins with the two and goes on with the other fields. The tokens
  between the first and the last have no cell of the row: for the tokens
  \<open>f, middle..., l\<close> the row is \<open>l, f\<close> and the other fields.
\<close>

theorem name_tokens_first_and_last:
  assumes "getitem user (str ''name'') = Inr (JStr n)" and "split n \<noteq> []"
  shows "last_name user = Inr (last (split n)) \<and> first_name user = Inr (hd (split n)) \<and>
     name_key user = Inr (last (split n), hd (split n)) \<and>
     (\<forall>email street city zipcode phone website.
        getitem user (str ''email'') = Inr email \<and>
        address_item user ''street'' = Inr street \<and>
        address_item user ''city'' = Inr city \<and>
        address_item user ''zipcode'' = Inr zipcode \<and>
        getitem user (str ''phone'') = Inr phone \<and>
        getitem user (str ''website'') = Inr website \<longrightarrow>
        user_row user = Inr [JStr (last (split n)), JStr (hd (split n)), email, street, city,
                             zipcode, phone, website] \<and>
        (\<forall>f middle l. split n = f # middle @ [l] \<longrightarrow>
           user_row user = Inr [JStr l, JStr f, email, street, city, zipcode, phone, website]))"
proof -
  from assms have "last_name user = Inr (last (split n)) \<and> first_name user = Inr (hd (split n))"
    by (simp add: names_eq_Inr)
  moreover from assms have "name_key user = Inr (last (split n), hd (split n))"
    by (simp add: name_key_eq_Inr)
  moreover have "user_row user = Inr [JStr (last (split n)), JStr (hd (split n)), email, street, city,
                             zipcode, phone, website]"
    if "getitem user (str ''email'') = Inr email" "address_item user ''street'' = Inr street"
      "address_item user ''city'' = Inr city" "address_item user ''zipcode'' = Inr zipcode"
      "getitem user (str ''phone'') = Inr phone" "getitem user (str ''website'') = Inr website"
    for email street city zipcode phone website
    using assms that by (simp add: user_row_eq_Inr)
  moreover have "last (split n) = l \<and> hd (split n) = f" if "split n = f # middle @ [l]"
    for f middle l
    using that by simp
  ultimately show ?thesis
    by simp
qed

theorem name_tokens_first_and_last_witness:
  "getitem nicholas (str ''name'') = Inr (JStr (str ''Nicholas Runolfsdottir V'')) \<and>
   split (str ''Nicholas Runolfsdottir V'') = [str ''Nicholas'', str ''Runolfsdottir'', str ''V''] \<and>
   last_name nicholas = Inr (str ''V'') \<and> first_name nicholas = Inr (str ''Nicholas'') \<and>
   name_key nicholas = Inr (str ''V'', str ''Nicholas'') \<and>
   user_row nicholas =
     Inr [JStr (str ''V''), JStr (str ''Nicholas''), JStr (str ''n@x.com''), JStr (str ''7 Fir''),
          JStr (str ''Hull''), JStr (str ''10007''), JStr (str ''7''), JStr (str ''n.org'')]"
proof -
  have name: "getitem nicholas (str ''name'') = Inr (JStr (str ''Nicholas Runolfsdottir V''))"
    by (simp add: nicholas_def getitem_mk_user)
  have tokens: "split (str ''Nicholas Runolfsdottir V'') \<noteq> []"
    by (simp add: split_examples)
  have fields: "getitem nicholas (str ''email'') = Inr (JStr (str ''n@x.com'')) \<and>
      address_item nicholas ''street'' = Inr (JStr (str ''7 Fir'')) \<and>
      address_item nicholas ''city'' = Inr (JStr (str ''Hull'')) \<and>
      address_item nicholas ''zipcode'' = Inr (JStr (str ''10007'')) \<and>
      getitem nicholas (str ''phone'') = Inr (JStr (str ''7'')) \<and>
      getitem nicholas (str ''website'') = Inr (JStr (str ''n.org''))"
    by (simp add: nicholas_def getitem_mk_user)
  from name_tokens_first_and_last [OF name tokens] fields name show ?thesis
    by (simp add: split_examples)
qed











lemma lacks_field_row: "lacks_field user \<Longrightarrow> \<exists>e. user_row user = Inl e"
proof (cases "user_row user")
  case (Inl e)
  then show ?thesis by blast
next
  case (Inr row)
  assume "lacks_field user"
  with Inr show ?thesis
    unfolding user_row_eq_Inr lacks_field_def address_item_eq_Inr
    by (auto simp: address_item_def)
qed

text \<open>
  C10. An export that raises, at whatever step, creates no output file: the state after
  it is the state before it, since \<open>wb.save\<close> is the last step and the only one that
  writes. In particular an export raises, and so writes nothing, when a record of the
  snapshot lacks a required field.
\<close>

theorem failed_export_writes_nothing:
  "(fst (write_user_data_to_excel lib now folder w) = Inl err \<longrightarrow>
      write_user_data_to_excel lib now folder w = (Inl err, w)) \<and>
   (read_text (fs w) USERS_JSON_FILE = Inr s \<and> json_loads lib s = Inr users \<and>
    iterate users = Inr us \<and> user \<in> set us \<and> lacks_field user \<longrightarrow>
      (\<exists>e. write_user_data_to_excel lib now folder w = (Inl e, w)))"
proof (intro conjI impI)
  assume "fst (write_user_data_to_excel lib now folder w) = Inl err"
  then show "write_user_data_to_excel lib now folder w = (Inl err, w)"
    by (rule export_Inl)
next
  assume a: "read_text (fs w) USERS_JSON_FILE = Inr s \<and> json_loads lib s = Inr users \<and>
    iterate users = Inr us \<and> user \<in> set us \<and> lacks_field user"
  have "fst (write_user_data_to_excel lib now folder w) \<noteq> Inr ()"
  proof
    assume "fst (write_user_data_to_excel lib now folder w) = Inr ()"
    from export_ok_sheet [OF this] a obtain rows
      where "list_all2 (\<lambda>user row. user_row user = Inr row) (sort_key key_of us) rows"
      by auto
    moreover from a have "user \<in> set (sort_key key_of us)"
      by simp
    then obtain i where "i < length (sort_key key_of us)" and "sort_key key_of us ! i = user"
      unfolding in_set_conv_nth by blast
    ultimately have "user_row user = Inr (rows ! i)"
      using list_all2_nthD by fastforce
    then obtain row where "user_row user = Inr row" ..
    with a lacks_field_row [of user] show False
      by auto
  qed
  then obtain e where "fst (write_user_data_to_excel lib now folder w) = Inl e"
    by (cases "fst (write_user_data_to_excel lib now folder w)") auto
  then show "\<exists>e. write_user_data_to_excel lib now folder w = (Inl e, w)"
    using export_Inl by blast
qed

lemma user_row_name_only: "user_row name_only = Inl KeyError"
  by (simp add: name_only_def user_row_def last_name_def first_name_def last_item_def
      first_item_def split_examples) (simp add: str_def)

lemma lacks_field_name_only: "lacks_field name_only"
  by (simp add: lacks_field_def name_only_def) (simp add: str_def)

lemma export_incomplete:
  "write_user_data_to_excel (knowing incomplete) noon [str ''files''] (snapshot_of incomplete) =
     (Inl KeyError, snapshot_of incomplete)"
proof -
  have "name_key name_only = Inr (str ''Doe'', str ''Jane'')"
    by (simp add: name_key_eq_Inr name_only_def split_examples)
  then have "py_sorted name_key [name_only] = Inr [name_only]"
    by (simp add: py_sorted_def)
  moreover have "ws_append (knowing incomplete) [] header = Inr [header]"
    by (simp add: ws_append_eq_Inr header_cells)
  moreover have "iterate incomplete = Inr [name_only]"
    by (simp add: incomplete_def)
  ultimately have "build_sheet (knowing incomplete) (fs (snapshot_of incomplete)) = Inl KeyError"
    by (simp add: build_sheet_def read_snapshot_of snapshot_of_simps user_row_name_only)
  then show ?thesis
    by (simp add: write_user_data_to_excel_def)
qed

theorem failed_export_writes_nothing_witness:
  "read_text (fs (snapshot_of incomplete)) USERS_JSON_FILE = Inr (json_dumps incomplete) \<and>
   json_loads (knowing incomplete) (json_dumps incomplete) = Inr incomplete \<and>
   iterate incomplete = Inr [name_only] \<and> name_only \<in> set [name_only] \<and> lacks_field name_only \<and>
   fst (write_user_data_to_excel (knowing incomplete) noon [str ''files'']
          (snapshot_of incomplete)) = Inl KeyError \<and>
   write_user_data_to_excel (knowing incomplete) noon [str ''files''] (snapshot_of incomplete) =
     (Inl KeyError, snapshot_of incomplete) \<and>
   (\<exists>e. write_user_data_to_excel (knowing incomplete) noon [str ''files'']
          (snapshot_of incomplete) = (Inl e, snapshot_of incomplete))"
proof -
  have it: "iterate incomplete = Inr [name_only]"
    by (simp add: incomplete_def)
  have failed: "fst (write_user_data_to_excel (knowing incomplete) noon [str ''files'']
          (snapshot_of incomplete)) = Inl KeyError"
    by (simp add: export_incomplete)
  from failed_export_writes_nothing [of "knowing incomplete" noon "[str ''files'']"
      "snapshot_of incomplete" KeyError "json_dumps incomplete" incomplete "[name_only]" name_only]
    failed it read_snapshot_of [of incomplete] snapshot_of_simps(2) [of incomplete]
    lacks_field_name_only
  show ?thesis by simp
qed

subsection \<open>The name of the export\<close>

lemma digits_1: "n < 10 \<Longrightarrow> digits n = [48 + n]"
  by (subst digits.simps) simp

lemma digits_2: "10 \<le> n \<Longrightarrow> n < 100 \<Longrightarrow> digits n = [48 + n div 10, 48 + n mod 10]"
  by (subst digits.simps) (simp add: digits_1)

lemma zero_pad_2: "n < 100 \<Longrightarrow> zero_pad 2 n = [48 + n div 10, 48 + n mod 10]"
  by (cases "n < 10") (simp_all add: zero_pad_def digits_1 digits_2 numeral_2_eq_2)

lemma div_div_10:
  "(n :: nat) div 10 div 10 = n div 100" "(n :: nat) div 10 div 100 = n div 1000"
  "(n :: nat) div 100 div 10 = n div 1000"
  using div_mult2_eq [of n 10 10] div_mult2_eq [of n 10 100] div_mult2_eq [of n 100 10]
  by simp_all

lemma mod_100_parts:
  "(n :: nat) mod 100 div 10 = n div 10 mod 10" "(n :: nat) mod 100 mod 10 = n mod 10"
proof -
  have "n mod 100 = 10 * (n div 10 mod 10) + n mod 10"
    using mod_mult2_eq [of n 10 10] by simp
  then show "n mod 100 div 10 = n div 10 mod 10" "n mod 100 mod 10 = n mod 10"
    by simp_all
qed

lemma digits_3:
  assumes "100 \<le> n" and "n < 1000"
  shows "digits n = [48 + n div 100, 48 + n div 10 mod 10, 48 + n mod 10]"
proof -
  from assms have "10 \<le> n div 10" "n div 10 < 100"
    by auto
  then have "digits (n div 10) = [48 + n div 10 div 10, 48 + n div 10 mod 10]"
    by (rule digits_2)
  moreover have "n div 10 div 10 = n div 100"
    by (rule div_div_10)
  ultimately show ?thesis
    using assms by (subst digits.simps) simp
qed

lemma digits_4:
  assumes "1000 \<le> n" and "n < 10000"
  shows "digits n = [48 + n div 1000, 48 + n div 100 mod 10, 48 + n div 10 mod 10, 48 + n mod 10]"
proof -
  from assms have "100 \<le> n div 10" "n div 10 < 1000"
    by auto
  then have "digits (n div 10) =
      [48 + n div 10 div 100, 48 + n div 10 div 10 mod 10, 48 + n div 10 mod 10]"
    by (rule digits_3)
  moreover have "n div 10 div 100 = n div 1000" "n div 10 div 10 = n div 100"
    by (rule div_div_10)+
  ultimately show ?thesis
    using assms by (subst digits.simps) simp
qed

lemma replicate_small: "replicate 3 x = [x, x, x]" "replicate 2 x = [x, x]"
  by (simp_all add: numeral_3_eq_3 numeral_2_eq_2)

lemma zero_pad_4:
  assumes "n < 10000"
  shows "zero_pad 4 n = zero_pad 2 (n div 100) @ zero_pad 2 (n mod 100)"
proof -
  have parts: "n div 100 < 100" "n mod 100 < 100"
    using assms by auto
  have split: "n div 100 div 10 = n div 1000" "n mod 100 div 10 = n div 10 mod 10"
    "n mod 100 mod 10 = n mod 10"
    by (rule div_div_10 mod_100_parts)+
  consider "n < 10" | "10 \<le> n" "n < 100" | "100 \<le> n" "n < 1000" | "1000 \<le> n"
    by linarith
  then have "zero_pad 4 n =
    [48 + n div 1000, 48 + n div 100 mod 10, 48 + n div 10 mod 10, 48 + n mod 10]"
  proof cases
    case 1
    then show ?thesis
      by (simp add: zero_pad_def digits_1 replicate_small)
  next
    case 2
    then show ?thesis
      by (simp add: zero_pad_def digits_2 replicate_small)
  next
    case 3
    then show ?thesis
      by (simp add: zero_pad_def digits_3)
  next
    case 4
    with assms show ?thesis
      by (simp add: zero_pad_def digits_4)
  qed
  then show ?thesis
    by (simp add: zero_pad_2 parts split)
qed

lemma less_div_mod:
  assumes "0 < (k :: nat)"
  shows "a < b \<longleftrightarrow> a div k < b div k \<or> a div k = b div k \<and> a mod k < b mod k"
proof (cases "a div k" "b div k" rule: linorder_cases)
  case less
  then have "Suc (a div k) \<le> b div k"
    by simp
  then have "k * Suc (a div k) \<le> k * (b div k)"
    by (rule mult_le_mono2)
  moreover have "a < k * Suc (a div k)"
    using assms by (simp add: dividend_less_times_div)
  moreover have "k * (b div k) \<le> b"
    by simp
  ultimately have "a < b"
    by linarith
  with less show ?thesis
    by simp
next
  case equal
  have "a = k * (a div k) + a mod k" "b = k * (b div k) + b mod k"
    by simp_all
  with equal have "a < b \<longleftrightarrow> a mod k < b mod k"
    by (metis nat_add_left_cancel_less)
  with equal show ?thesis
    by simp
next
  case greater
  then have "Suc (b div k) \<le> a div k"
    by simp
  then have "k * Suc (b div k) \<le> k * (a div k)"
    by (rule mult_le_mono2)
  moreover have "b < k * Suc (b div k)"
    using assms by (simp add: dividend_less_times_div)
  moreover have "k * (a div k) \<le> a"
    by simp
  ultimately have "b < a"
    by linarith
  with greater show ?thesis
    by auto
qed

lemma eq_div_mod: "(a :: nat) = b \<longleftrightarrow> a div k = b div k \<and> a mod k = b mod k"
  by (metis div_mult_mod_eq)

lemma pad2_less:
  assumes "a < 100" and "b < 100"
  shows "zero_pad 2 a @ xs < zero_pad 2 b @ ys \<longleftrightarrow> a < b \<or> a = b \<and> xs < ys"
  unfolding zero_pad_2 [OF assms(1)] zero_pad_2 [OF assms(2)]
    less_div_mod [of 10 a b, simplified] eq_div_mod [of a b 10]
  by auto

lemma pad4_less:
  assumes "a < 10000" and "b < 10000"
  shows "zero_pad 4 a @ xs < zero_pad 4 b @ ys \<longleftrightarrow> a < b \<or> a = b \<and> xs < ys"
proof -
  have bounds: "a div 100 < 100" "b div 100 < 100" "a mod 100 < 100" "b mod 100 < 100"
    using assms by auto
  show ?thesis
    unfolding zero_pad_4 [OF assms(1)] zero_pad_4 [OF assms(2)] append_assoc
      pad2_less [OF bounds(1,2)] pad2_less [OF bounds(3,4)]
      less_div_mod [of 100 a b, simplified] eq_div_mod [of a b 100]
    by blast
qed

lemma prefix_less: "p @ x < p @ y \<longleftrightarrow> x < (y :: nat list)"
  by (induction p) simp_all

lemma suffix_less: "length x = length y \<Longrightarrow> x @ s < y @ s \<longleftrightarrow> x < (y :: nat list)"
  by (induction x y rule: list_induct2) auto

lemma length_zero_pad:
  "n < 100 \<Longrightarrow> length (zero_pad 2 n) = 2" "m < 10000 \<Longrightarrow> length (zero_pad 4 m) = 4"
  by (simp_all add: zero_pad_4 zero_pad_2)

lemma valid_bounds:
  assumes "valid_datetime t"
  shows "year t < 10000" "month t < 100" "day t < 100" "hour t < 100" "minute t < 100"
    "second t < 100"
proof -
  have "days_in_month (year t) (month t) \<le> 31"
    by (simp add: days_in_month_def)
  with assms show "year t < 10000" "month t < 100" "day t < 100" "hour t < 100"
    "minute t < 100" "second t < 100"
    by (simp_all add: valid_datetime_def)
qed

lemma digits_year: "1000 \<le> n \<Longrightarrow> n < 10000 \<Longrightarrow> digits n = zero_pad 4 n"
  by (simp add: zero_pad_def digits_4)

lemma strftime_padded:
  assumes "valid_datetime t" and "1000 \<le> year t"
  shows "strftime t =
    zero_pad 4 (year t) @ zero_pad 2 (month t) @ zero_pad 2 (day t) @
    zero_pad 2 (hour t) @ zero_pad 2 (minute t) @ zero_pad 2 (second t)"
  using assms valid_bounds(1) [OF assms(1)] by (simp add: strftime_def digits_year)

lemma length_strftime: "valid_datetime t \<Longrightarrow> 1000 \<le> year t \<Longrightarrow> length (strftime t) = 14"
  by (simp add: strftime_padded length_zero_pad valid_bounds)

lemma strftime_less:
  assumes "valid_datetime t1" and "valid_datetime t2" and "1000 \<le> year t1" and "1000 \<le> year t2"
  shows "strftime t1 < strftime t2 \<longleftrightarrow> stamp t1 < stamp t2"
proof -
  have last: "zero_pad 2 a < zero_pad 2 b \<longleftrightarrow> a < b" if "a < 100" "b < 100" for a b
    using pad2_less [OF that, of "[]" "[]"] by simp
  show ?thesis
    unfolding strftime_padded [OF assms(1,3)] strftime_padded [OF assms(2,4)]
    using valid_bounds [OF assms(1)] valid_bounds [OF assms(2)]
    by (simp add: pad4_less pad2_less last stamp_def) linarith
qed

lemma export_name_less:
  assumes "valid_datetime t1" and "valid_datetime t2" and "1000 \<le> year t1" and "1000 \<le> year t2"
  shows "export_name t1 < export_name t2 \<longleftrightarrow> stamp t1 < stamp t2"
  using assms
  by (simp add: export_name_def prefix_less suffix_less length_strftime strftime_less)

lemma digit_chars: "n < 100 \<Longrightarrow> \<forall>c \<in> set (zero_pad 2 n). 48 \<le> c \<and> c \<le> 57"
proof -
  assume "n < 100"
  then have "n div 10 < 10" "n mod 10 < 10"
    by auto
  with \<open>n < 100\<close> show ?thesis
    by (simp add: zero_pad_2)
qed

lemma digit_chars_4: "n < 10000 \<Longrightarrow> \<forall>c \<in> set (zero_pad 4 n). 48 \<le> c \<and> c \<le> 57"
proof -
  assume n: "n < 10000"
  then have "n div 100 < 100"
    by simp
  then have "\<forall>c \<in> set (zero_pad 2 (n div 100)). 48 \<le> c \<and> c \<le> 57"
    by (rule digit_chars)
  moreover have "\<forall>c \<in> set (zero_pad 2 (n mod 100)). 48 \<le> c \<and> c \<le> 57"
    by (rule digit_chars) simp
  ultimately show ?thesis
    by (auto simp: zero_pad_4 [OF n])
qed

lemma digits_strftime:
  assumes "valid_datetime t" and "1000 \<le> year t"
  shows "\<forall>c \<in> set (strftime t). 48 \<le> c \<and> c \<le> 57"
  unfolding strftime_padded [OF assms]
  using valid_bounds [OF assms(1)] digit_chars digit_chars_4
  by auto

lemma days_before_year_Suc:
  assumes "1 \<le> y"
  shows "days_before_year (Suc y) = days_before_year y + (if is_leap y then 366 else 365)"
proof -
  from assms obtain n where y: "y = Suc n"
    by (cases y) auto
  define a b c where "a = n div 4" and "b = n div 100" and "c = n div 400"
  define p4 p100 p400
    where "p4 \<longleftrightarrow> Suc n mod 4 = 0" and "p100 \<longleftrightarrow> Suc n mod 100 = 0"
      and "p400 \<longleftrightarrow> Suc n mod 400 = 0"
  have le: "b \<le> a"
    unfolding a_def b_def by (rule div_le_mono2) simp_all
  have m4: "p100 \<longrightarrow> p4"
  proof
    assume p100
    then have "100 dvd Suc n"
      by (simp add: p100_def mod_eq_0_iff_dvd)
    moreover have "(4 :: nat) dvd 100"
      by simp
    ultimately have "4 dvd Suc n"
      by (rule dvd_trans [rotated])
    then show p4
      by (simp add: p4_def mod_eq_0_iff_dvd)
  qed
  have m100: "p400 \<longrightarrow> p100"
  proof
    assume p400
    then have "400 dvd Suc n"
      by (simp add: p400_def mod_eq_0_iff_dvd)
    moreover have "(100 :: nat) dvd 400"
      by simp
    ultimately have "100 dvd Suc n"
      by (rule dvd_trans [rotated])
    then show p100
      by (simp add: p100_def mod_eq_0_iff_dvd)
  qed
  have d4: "Suc n div 4 = (if p4 then Suc a else a)"
    and d100: "Suc n div 100 = (if p100 then Suc b else b)"
    and d400: "Suc n div 400 = (if p400 then Suc c else c)"
    by (simp_all add: div_Suc a_def b_def c_def p4_def p100_def p400_def)
  have before: "days_before_year y = n * 365 + a - b + c"
    and after: "days_before_year (Suc y) = Suc n * 365 + Suc n div 4 - Suc n div 100 + Suc n div 400"
    by (simp_all add: y days_before_year_def a_def b_def c_def)
  have leap: "is_leap y \<longleftrightarrow> p4 \<and> (\<not> p100 \<or> p400)"
    by (simp add: y is_leap_def p4_def p100_def p400_def)
  show ?thesis
    unfolding before after leap d4 d100 d400
    using le m4 m100 by (cases p4; cases p100; cases p400) simp_all
qed

lemma days_before_year_mono:
  assumes "1 \<le> y1" and "y1 < y2"
  shows "days_before_year y1 + (if is_leap y1 then 366 else 365) \<le> days_before_year y2"
  using assms(2,1)
proof (induction y2)
  case 0
  then show ?case by simp
next
  case (Suc y2)
  show ?case
  proof (cases "y1 = y2")
    case True
    with Suc.prems show ?thesis
      by (simp add: days_before_year_Suc)
  next
    case False
    with Suc.prems have "y1 < y2"
      by simp
    with Suc have "days_before_year y1 + (if is_leap y1 then 366 else 365) \<le> days_before_year y2"
      by simp
    moreover have "days_before_year y2 \<le> days_before_year (Suc y2)"
      using \<open>y1 < y2\<close> Suc.prems by (simp add: days_before_year_Suc)
    ultimately show ?thesis
      by linarith
  qed
qed

lemma upt_13: "[Suc 0..<13] = [1, 2, 3, 4, 5, 6, 7, 8, 9, 10, 11, 12]"
  by code_simp

lemma days_before_month_13: "days_before_month y 13 = (if is_leap y then 366 else 365)"
  by (simp add: days_before_month_def upt_13 days_in_month_def)

lemma days_before_month_mono:
  assumes "1 \<le> m1" and "m1 < m2"
  shows "days_before_month y m1 + days_in_month y m1 \<le> days_before_month y m2"
proof -
  from assms have "[1..<m2] = [1..<m1] @ [m1..<m2]"
    using upt_add_eq_append [of 1 m1 "m2 - m1"] by simp
  moreover from assms have "[m1..<m2] = m1 # [Suc m1..<m2]"
    by (simp add: upt_conv_Cons)
  ultimately show ?thesis
    by (simp add: days_before_month_def)
qed

lemma pair_less: "(a :: nat, b :: 'b :: linorder) < (c, d) \<longleftrightarrow> a < c \<or> a = c \<and> b < d"
  by auto

lemma toordinal_less:
  assumes "valid_datetime t1" and "valid_datetime t2"
    and "(year t1, month t1, day t1) < (year t2, month t2, day t2)"
  shows "toordinal t1 < toordinal t2"
proof -
  from assms(1) have v1: "1 \<le> year t1" "1 \<le> month t1" "month t1 \<le> 12"
    "day t1 \<le> days_in_month (year t1) (month t1)"
    by (simp_all add: valid_datetime_def)
  from assms(2) have v2: "1 \<le> day t2"
    by (simp add: valid_datetime_def)
  have in_year: "days_before_month (year t1) (month t1) + days_in_month (year t1) (month t1)
      \<le> days_before_month (year t1) 13"
    using days_before_month_mono [of "month t1" 13 "year t1"] v1 by simp
  from assms(3) consider "year t1 < year t2"
    | "year t1 = year t2" "month t1 < month t2"
    | "year t1 = year t2" "month t1 = month t2" "day t1 < day t2"
    unfolding pair_less by blast
  then show ?thesis
  proof cases
    case 1
    from days_before_year_mono [OF v1(1) 1] in_year v1(4) v2 show ?thesis
      by (simp add: toordinal_def days_before_month_13)
  next
    case 2
    from days_before_month_mono [OF v1(2) 2(2), of "year t1"] v1(4) v2 2(1) show ?thesis
      by (simp add: toordinal_def)
  next
    case 3
    then show ?thesis
      by (simp add: toordinal_def)
  qed
qed

lemma seconds_less:
  assumes "valid_datetime t1" and "valid_datetime t2" and "stamp t1 < stamp t2"
  shows "seconds t1 < seconds t2"
proof -
  from assms(1) have b1: "hour t1 < 24" "minute t1 < 60" "second t1 < 60"
    by (simp_all add: valid_datetime_def)
  from assms(2) have b2: "hour t2 < 24" "minute t2 < 60" "second t2 < 60"
    by (simp_all add: valid_datetime_def)
  from assms(3) consider "(year t1, month t1, day t1) < (year t2, month t2, day t2)"
    | "year t1 = year t2" "month t1 = month t2" "day t1 = day t2"
      "(hour t1, minute t1, second t1) < (hour t2, minute t2, second t2)"
    unfolding stamp_def pair_less by blast
  then show ?thesis
  proof cases
    case 1
    with assms have "toordinal t1 < toordinal t2"
      by (simp add: toordinal_less)
    then have "Suc (toordinal t1) \<le> toordinal t2"
      by simp
    then have "toordinal t1 * 86400 + 86400 \<le> toordinal t2 * 86400"
      by simp
    moreover have "seconds t = toordinal t * 86400 + hour t * 3600 + minute t * 60 + second t" for t
      by (simp add: seconds_def add_mult_distrib)
    ultimately show ?thesis
      using b1 b2 by simp
  next
    case 2
    then have "toordinal t1 = toordinal t2"
      by (simp add: toordinal_def)
    moreover have "seconds t = toordinal t * 86400 + hour t * 3600 + minute t * 60 + second t" for t
      by (simp add: seconds_def add_mult_distrib)
    moreover from 2(4) consider "hour t1 < hour t2"
      | "hour t1 = hour t2" "minute t1 < minute t2"
      | "hour t1 = hour t2" "minute t1 = minute t2" "second t1 < second t2"
      unfolding pair_less by blast
    then have "hour t1 * 3600 + minute t1 * 60 + second t1
        < hour t2 * 3600 + minute t2 * 60 + second t2"
      using b1 b2 by cases simp_all
    ultimately show ?thesis
      by simp
  qed
qed

lemma later_stamp:
  assumes "valid_datetime t1" and "valid_datetime t2" and "more_than_a_second_before t1 t2"
  shows "stamp t1 < stamp t2"
proof (rule ccontr)
  assume "\<not> stamp t1 < stamp t2"
  then have "stamp t2 < stamp t1 \<or> stamp t2 = stamp t1"
    using not_less_iff_gr_or_eq by blast
  then have "seconds t2 \<le> seconds t1"
  proof
    assume "stamp t2 < stamp t1"
    with assms show ?thesis
      using seconds_less [of t2 t1] by simp
  next
    assume "stamp t2 = stamp t1"
    then show ?thesis
      by (simp add: seconds_def toordinal_def stamp_def)
  qed
  moreover from assms(2) have "microsecond t2 < 1000000"
    by (simp add: valid_datetime_def)
  moreover have "to_microseconds t = int (seconds t * 1000000 + microsecond t)" for t
    by (simp add: to_microseconds_def seconds_def)
  ultimately have "to_microseconds t2 - to_microseconds t1 < 1000000"
    by simp
  with assms(3) show False
    by (simp add: more_than_a_second_before_def)
qed

lemma export_ok_saved:
  assumes "fst (write_user_data_to_excel lib now folder w) = Inr ()"
  shows "(\<exists>ws. fs (snd (write_user_data_to_excel lib now folder w)) (folder @ [export_name now]) =
            Some (File (Xlsx ws))) \<and>
         logged (snd (write_user_data_to_excel lib now folder w)) =
           logged w @ [(1, ExcelSaved (folder @ [export_name now]))]"
proof -
  from assms have "write_user_data_to_excel lib now folder w =
      (Inr (), snd (write_user_data_to_excel lib now folder w))"
    by (metis prod.collapse)
  from export_eq_Inr [OF this] show ?thesis
    by auto
qed

lemma later_reading:
  assumes "moment_ok m1" and "moment_ok m2" and "utcoffset m1 = utcoffset m2"
    and "more_than_a_second_earlier m1 m2"
  shows "more_than_a_second_before (datetime_now m1) (datetime_now m2)"
  using assms
  by (simp add: moment_ok_def more_than_a_second_earlier_def more_than_a_second_before_def
      datetime_now_def)

text \<open>
  C7, as the code has it. The name of an export made in a year from 1000 is
  \<open>employees_\<close>, then 14 decimal digits, then \<open>.xlsx\<close>; the digits are the year in four
  digits and the month, day, hour, minute and second padded to two, with nothing between
  them, of the local time that \<open>datetime.now()\<close> returns. Of two such local times more
  than one second apart, the earlier has the smaller name in the lexicographic order of
  strings; so of two moments more than one second apart at which the local time has the
  same offset from UTC, the earlier has the smaller name. An export that succeeds saves
  its workbook under this name in the folder it was given, and logs the path.
\<close>

theorem export_name_format_and_order:
  "(valid_datetime t \<and> 1000 \<le> year t \<longrightarrow>
      export_name t = str ''employees_'' @ strftime t @ str ''.xlsx'' \<and>
      length (strftime t) = 14 \<and> (\<forall>c \<in> set (strftime t). 48 \<le> c \<and> c \<le> 57) \<and>
      strftime t = zero_pad 4 (year t) @ zero_pad 2 (month t) @ zero_pad 2 (day t) @
                   zero_pad 2 (hour t) @ zero_pad 2 (minute t) @ zero_pad 2 (second t)) \<and>
   (valid_datetime t1 \<and> valid_datetime t2 \<and> 1000 \<le> year t1 \<and> 1000 \<le> year t2 \<and>
    more_than_a_second_before t1 t2 \<longrightarrow>
      export_name t1 < export_name t2) \<and>
   (moment_ok m1 \<and> moment_ok m2 \<and> utcoffset m1 = utcoffset m2 \<and>
    1000 \<le> year (datetime_now m1) \<and> 1000 \<le> year (datetime_now m2) \<and>
    more_than_a_second_earlier m1 m2 \<longrightarrow>
      export_name (datetime_now m1) < export_name (datetime_now m2)) \<and>
   (fst (write_user_data_to_excel lib now folder w) = Inr () \<longrightarrow>
      (\<exists>ws. fs (snd (write_user_data_to_excel lib now folder w)) (folder @ [export_name now]) =
            Some (File (Xlsx ws))) \<and>
      logged (snd (write_user_data_to_excel lib now folder w)) =
        logged w @ [(1, ExcelSaved (folder @ [export_name now]))])"
proof (intro conjI impI)
  assume "valid_datetime t1 \<and> valid_datetime t2 \<and> 1000 \<le> year t1 \<and> 1000 \<le> year t2 \<and>
    more_than_a_second_before t1 t2"
  then show "export_name t1 < export_name t2"
    by (simp add: export_name_less later_stamp)
next
  assume a: "moment_ok m1 \<and> moment_ok m2 \<and> utcoffset m1 = utcoffset m2 \<and>
    1000 \<le> year (datetime_now m1) \<and> 1000 \<le> year (datetime_now m2) \<and>
    more_than_a_second_earlier m1 m2"
  then have "more_than_a_second_before (datetime_now m1) (datetime_now m2)"
    by (simp add: later_reading)
  moreover from a have "valid_datetime (datetime_now m1)" "valid_datetime (datetime_now m2)"
    by (simp_all add: moment_ok_def datetime_now_def)
  ultimately show "export_name (datetime_now m1) < export_name (datetime_now m2)"
    using a by (simp add: export_name_less later_stamp)
next
  assume "fst (write_user_data_to_excel lib now folder w) = Inr ()"
  then show "\<exists>ws. fs (snd (write_user_data_to_excel lib now folder w)) (folder @ [export_name now]) =
            Some (File (Xlsx ws))"
    and "logged (snd (write_user_data_to_excel lib now folder w)) =
        logged w @ [(1, ExcelSaved (folder @ [export_name now]))]"
    using export_ok_saved by blast+
next
  assume a: "valid_datetime t \<and> 1000 \<le> year t"
  then show "length (strftime t) = 14"
    by (simp add: length_strftime)
  from a digits_strftime show "\<forall>c \<in> set (strftime t). 48 \<le> c \<and> c \<le> 57"
    by blast
  from a show "strftime t = zero_pad 4 (year t) @ zero_pad 2 (month t) @ zero_pad 2 (day t) @
                   zero_pad 2 (hour t) @ zero_pad 2 (minute t) @ zero_pad 2 (second t)"
    by (simp add: strftime_padded)
qed (simp add: export_name_def)

lemma valid_examples: "valid_datetime noon" "valid_datetime just_after_noon"
  by (simp_all add: valid_datetime_def noon_def just_after_noon_def days_in_month_def is_leap_def)

lemma apart_examples: "more_than_a_second_before noon just_after_noon"
  by (simp add: more_than_a_second_before_def to_microseconds_def toordinal_def noon_def
      just_after_noon_def)

lemma year_examples: "1000 \<le> year noon" "1000 \<le> year just_after_noon"
  by (simp_all add: noon_def just_after_noon_def)

lemma strftime_examples:
  "strftime noon = str ''20240229120000''" "strftime just_after_noon = str ''20240229120002''"
  by (simp_all add: strftime_padded valid_examples year_examples)
    (simp_all add: noon_def just_after_noon_def zero_pad_2 zero_pad_4 str_def)

lemma export_name_examples:
  "export_name noon = str ''employees_20240229120000.xlsx''"
  "export_name just_after_noon = str ''employees_20240229120002.xlsx''"
  by (simp_all add: export_name_def strftime_examples) (simp_all add: str_def)

lemma moment_examples:
  "moment_ok at_noon" "moment_ok at_just_after_noon"
  "more_than_a_second_earlier at_noon at_just_after_noon"
  "datetime_now at_noon = noon" "datetime_now at_just_after_noon = just_after_noon"
  "utcoffset at_noon = utcoffset at_just_after_noon"
  using valid_examples apart_examples
  by (simp_all add: moment_ok_def at_noon_def at_just_after_noon_def datetime_now_def
      more_than_a_second_earlier_def)

theorem export_name_format_and_order_witness:
  "valid_datetime noon \<and> valid_datetime just_after_noon \<and>
   1000 \<le> year noon \<and> 1000 \<le> year just_after_noon \<and>
   more_than_a_second_before noon just_after_noon \<and>
   export_name noon = str ''employees_20240229120000.xlsx'' \<and>
   export_name just_after_noon = str ''employees_20240229120002.xlsx'' \<and>
   length (strftime noon) = 14 \<and>
   export_name noon < export_name just_after_noon \<and>
   moment_ok at_noon \<and> moment_ok at_just_after_noon \<and>
   utcoffset at_noon = utcoffset at_just_after_noon \<and>
   more_than_a_second_earlier at_noon at_just_after_noon \<and>
   export_name (datetime_now at_noon) < export_name (datetime_now at_just_after_noon) \<and>
   fst (write_user_data_to_excel (knowing three_users) noon [str ''files'']
          (snapshot_of three_users)) = Inr () \<and>
   (\<exists>ws. fs (snd (write_user_data_to_excel (knowing three_users) noon [str ''files'']
                    (snapshot_of three_users))) ([str ''files''] @ [export_name noon]) =
           Some (File (Xlsx ws)))"
proof -
  note inst = export_name_format_and_order [where t = noon and ?t1.0 = noon
      and ?t2.0 = just_after_noon and ?m1.0 = at_noon and ?m2.0 = at_just_after_noon
      and lib = "knowing three_users" and now = noon and folder = "[str ''files'']"
      and w = "snapshot_of three_users"]
  from inst valid_examples year_examples have "length (strftime noon) = 14"
    by blast
  moreover from inst valid_examples year_examples apart_examples
  have "export_name noon < export_name just_after_noon"
    by blast
  moreover from inst moment_examples year_examples
  have "export_name (datetime_now at_noon) < export_name (datetime_now at_just_after_noon)"
    by simp
  moreover from inst export_examples_ok
  have "\<exists>ws. fs (snd (write_user_data_to_excel (knowing three_users) noon [str ''files'']
                    (snapshot_of three_users))) ([str ''files''] @ [export_name noon]) =
           Some (File (Xlsx ws))"
    by blast
  ultimately show ?thesis
    using valid_examples year_examples apart_examples export_name_examples export_examples_ok
      moment_examples
    by blast
qed

text \<open>
  Across the end of daylight saving time the names are out of order: of two exports two
  seconds apart, the later has the smaller name. And two exports an hour apart have the
  same name.
\<close>

lemma fall_back_readings:
  "datetime_now before_fall_back =
     \<lparr>year = 2024, month = 10, day = 27, hour = 2, minute = 59, second = 59, microsecond = 0\<rparr>"
  "datetime_now after_fall_back =
     \<lparr>year = 2024, month = 10, day = 27, hour = 2, minute = 0, second = 1, microsecond = 0\<rparr>"
  by (simp_all add: datetime_now_def before_fall_back_def after_fall_back_def)

lemma fall_back_moments:
  "moment_ok before_fall_back" "moment_ok after_fall_back"
  "more_than_a_second_earlier before_fall_back after_fall_back"
  "moment_ok an_hour_before" "more_than_a_second_earlier an_hour_before after_fall_back"
  "datetime_now an_hour_before = datetime_now after_fall_back"
  by (simp_all add: moment_ok_def more_than_a_second_earlier_def more_than_a_second_before_def
      valid_datetime_def days_in_month_def is_leap_def to_microseconds_def toordinal_def
      before_fall_back_def after_fall_back_def an_hour_before_def datetime_now_def)

lemma fall_back_names:
  "export_name (datetime_now before_fall_back) = str ''employees_20241027025959.xlsx''"
  "export_name (datetime_now after_fall_back) = str ''employees_20241027020001.xlsx''"
proof -
  have "valid_datetime (datetime_now before_fall_back)" "valid_datetime (datetime_now after_fall_back)"
    using fall_back_moments by (simp_all add: moment_ok_def datetime_now_def)
  moreover have "1000 \<le> year (datetime_now before_fall_back)"
    "1000 \<le> year (datetime_now after_fall_back)"
    by (simp_all add: fall_back_readings)
  ultimately have "strftime (datetime_now before_fall_back) = str ''20241027025959''"
    "strftime (datetime_now after_fall_back) = str ''20241027020001''"
    by (simp_all add: strftime_padded) (simp_all add: fall_back_readings zero_pad_2 zero_pad_4 str_def)
  then show "export_name (datetime_now before_fall_back) = str ''employees_20241027025959.xlsx''"
    "export_name (datetime_now after_fall_back) = str ''employees_20241027020001.xlsx''"
    by (simp_all add: export_name_def) (simp_all add: str_def)
qed

theorem export_name_order_counterexample:
  "moment_ok before_fall_back \<and> moment_ok after_fall_back \<and>
   more_than_a_second_earlier before_fall_back after_fall_back \<and>
   export_name (datetime_now before_fall_back) = str ''employees_20241027025959.xlsx'' \<and>
   export_name (datetime_now after_fall_back) = str ''employees_20241027020001.xlsx'' \<and>
   export_name (datetime_now after_fall_back) < export_name (datetime_now before_fall_back) \<and>
   moment_ok an_hour_before \<and> more_than_a_second_earlier an_hour_before after_fall_back \<and>
   export_name (datetime_now an_hour_before) = export_name (datetime_now after_fall_back)"
proof -
  have "str ''employees_20241027020001.xlsx'' < str ''employees_20241027025959.xlsx''"
    by (simp add: str_def)
  then show ?thesis
    using fall_back_moments by (simp add: fall_back_names)
qed

subsection \<open>The run after a fetch that fails\<close>







end
